theory Spec2Isabelle
  imports Main
begin

section \<open>Exceptions of the datamanage commands and the importer\<close>

text \<open>
  Every exception class that the modelled sources raise, catch or let through is a
  constructor; a function that may raise returns \<open>exn + 'a\<close> with \<open>Inl\<close> the exception.
\<close>

datatype validation_error =
    DatamanageExistsValidationError "string option"
  | DatabaseChangeValidationError
  | OwnersNotFoundValidationError
  | DatamanageColumnsDuplicateValidationError
  | DatamanageColumnNotFoundValidationError
  | DatamanageColumnsExistsValidationError
  | DatamanageMetricsDuplicateValidationError
  | DatamanageMetricsNotFoundValidationError
  | DatamanageMetricsExistsValidationError

datatype exn =
    SQLAlchemyError
  | DAODeleteFailedError
  | DAOUpdateFailedError
  | SupersetSecurityException
  | DatamanageNotFoundError
  | DatamanageForbiddenError
  | DatamanageDeleteFailedError
  | DatamanageUpdateFailedError
  | DatamanageInvalidError "validation_error list"
  | MultipleResultsFound
  | NoResultFound
  | KeyError string
  | TypeError string
  | ValueError string
  | Exception "nat list"

section \<open>importers/v1/utils.py: native types to ORM column types\<close>

datatype sqla_type =
    Boolean
  | String nat
  | Text
  | BigInteger
  | Float
  | Date
  | DateTime bool

text \<open>
  A native type name is a Python \<open>str\<close>: a list of Unicode code points. \<open>ustr\<close> gives
  the code points of a literal of ASCII characters.
\<close>

definition ustr :: "string \<Rightarrow> nat list" where
  "ustr s = map of_char s"

text \<open>\<open>DateTime()\<close> has \<open>timezone=False\<close> by default.\<close>

definition type_map :: "(nat list \<times> sqla_type) list" where
  "type_map =
    [(ustr ''BOOLEAN'', Boolean),
     (ustr ''VARCHAR'', String 255),
     (ustr ''STRING'', String 255),
     (ustr ''TEXT'', Text),
     (ustr ''BIGINT'', BigInteger),
     (ustr ''FLOAT'', Float),
     (ustr ''FLOAT64'', Float),
     (ustr ''DOUBLE PRECISION'', Float),
     (ustr ''DATE'', Date),
     (ustr ''DATETIME'', DateTime False),
     (ustr ''TIMESTAMP WITHOUT TIME ZONE'', DateTime False),
     (ustr ''TIMESTAMP WITH TIME ZONE'', DateTime True)]"

text \<open>
  The interpreter's Unicode tables beyond ASCII are parameters: the upper-case mapping
  of a code point from 128 on (one or more code points: the dotless i gives \<open>I\<close>, the
  sharp s gives \<open>SS\<close>), and the value of a decimal digit from 128 on (\<open>None\<close> for a code
  point that is not a decimal digit). On ASCII both are written out.
\<close>

record unicode =
  upper_other :: "nat \<Rightarrow> nat list"
  decimal_other :: "nat \<Rightarrow> nat option"

definition ascii_upper :: "nat \<Rightarrow> nat" where
  "ascii_upper c = (if 97 \<le> c \<and> c \<le> 122 then c - 32 else c)"

text \<open>\<open>str.upper\<close>\<close>

definition upper :: "unicode \<Rightarrow> nat list \<Rightarrow> nat list" where
  "upper U s = concat (map (\<lambda>c. if c < 128 then [ascii_upper c] else upper_other U c) s)"

text \<open>
  The decimal value of a code point, as \<open>\d\<close> of a \<open>str\<close> pattern recognises it and
  \<open>int\<close> converts it.
\<close>

definition decimal :: "unicode \<Rightarrow> nat \<Rightarrow> nat option" where
  "decimal U c =
     (if c < 128 then (if 48 \<le> c \<and> c \<le> 57 then Some (c - 48) else None)
      else decimal_other U c)"

definition is_digit :: "unicode \<Rightarrow> nat \<Rightarrow> bool" where
  "is_digit U c = (decimal U c \<noteq> None)"

definition digit_val :: "unicode \<Rightarrow> nat \<Rightarrow> nat" where
  "digit_val U c = (case decimal U c of Some d \<Rightarrow> d | None \<Rightarrow> 0)"

definition int_of_digits :: "unicode \<Rightarrow> nat list \<Rightarrow> nat" where
  "int_of_digits U ds = foldl (\<lambda>n c. 10 * n + digit_val U c) 0 ds"

text \<open>
  \<open>int(match.group(1))\<close> on a run of decimal digits: the interpreter refuses a run of
  more than 4300 digits (its default limit on the conversion of a string to an integer)
  with \<open>ValueError\<close>.
\<close>

definition int_max_str_digits :: nat where
  "int_max_str_digits = 4300"

definition py_int :: "unicode \<Rightarrow> nat list \<Rightarrow> exn + nat" where
  "py_int U ds =
     (if length ds > int_max_str_digits
      then Inl (ValueError ''Exceeds the limit (4300 digits) for integer string conversion'')
      else Inr (int_of_digits U ds))"

text \<open>
  \<open>VARCHAR = re.compile(r"VARCHAR\((\d+)\)", re.IGNORECASE)\<close> used through
  \<open>VARCHAR.match\<close>: the pattern is anchored at the start of the string only; the
  letters match in either case (no code point beyond ASCII lower-cases to one of the
  letters of \<open>VARCHAR\<close>, so only the ASCII letters match); \<open>\d+\<close> takes the longest run
  of decimal digits (no shorter run can be followed by the closing parenthesis); and
  whatever follows the closing parenthesis is ignored. The result is group 1.
\<close>

definition VARCHAR_match :: "unicode \<Rightarrow> nat list \<Rightarrow> nat list option" where
  "VARCHAR_match U s =
     (if map ascii_upper (take 8 s) = ustr ''VARCHAR(''
      then (let ds = takeWhile (is_digit U) (drop 8 s);
                rest = dropWhile (is_digit U) (drop 8 s)
            in if ds \<noteq> [] \<and> take 1 rest = ustr '')'' then Some ds else None)
      else None)"

definition get_sqla_type :: "unicode \<Rightarrow> nat list \<Rightarrow> exn + sqla_type" where
  "get_sqla_type U native_type =
     (case map_of type_map (upper U native_type) of
        Some t \<Rightarrow> Inr t
      | None \<Rightarrow>
          (case VARCHAR_match U native_type of
             Some ds \<Rightarrow>
               (case py_int U ds of
                  Inl ex \<Rightarrow> Inl ex
                | Inr n \<Rightarrow> Inr (String n))
           | None \<Rightarrow> Inl (Exception (ustr ''Unknown type: '' @ native_type))))"

text \<open>
  The shape "VARCHAR(n)" as the specification words it: the literal name, an opening
  parenthesis, a non-empty run of the digits 0 to 9, a closing parenthesis, and
  nothing else.
\<close>

definition varchar_form :: "nat list \<Rightarrow> bool" where
  "varchar_form s =
     (take 8 s = ustr ''VARCHAR('' \<and> s \<noteq> [] \<and> last s = 41 \<and>
      butlast (drop 8 s) \<noteq> [] \<and> list_all (\<lambda>c. 48 \<le> c \<and> c \<le> 57) (butlast (drop 8 s)))"

section \<open>views/users/api.py: the current-user REST API\<close>

record user =
  user_id :: int
  username :: string
  is_anonymous :: bool

text \<open>
  What reading \<open>g.user\<close> gives inside a request: the read raises
  \<open>NoAuthorizationError\<close>, or the attribute is \<open>None\<close>, or it is a user object
  (the anonymous user is an object whose \<open>is_anonymous\<close> is true).
\<close>

datatype g_user = NoAuthorization | UserNone | UserObj user

datatype 'j result = Result 'j | ResultList "'j list"

datatype 'j response = response nat "'j result" | response_401

text \<open>
  \<open>user_response_schema.dump\<close>, \<open>bootstrap_user_data\<close> and the list returned by
  \<open>utils.get_all_users()\<close> are not defined in the sources at hand: they are
  parameters. \<open>get_all\<close> never reads \<open>g.user\<close>.
\<close>

definition get_all :: "(user \<Rightarrow> 'j) \<Rightarrow> user list \<Rightarrow> g_user \<Rightarrow> 'j response" where
  "get_all dump users g = response 200 (ResultList (map dump users))"

definition get_me :: "(user \<Rightarrow> 'j) \<Rightarrow> g_user \<Rightarrow> 'j response" where
  "get_me dump g =
     (case g of
        NoAuthorization \<Rightarrow> response_401
      | UserNone \<Rightarrow> response_401
      | UserObj u \<Rightarrow>
          if is_anonymous u then response_401 else response 200 (Result (dump u)))"

definition get_my_roles :: "(user \<Rightarrow> bool \<Rightarrow> 'j) \<Rightarrow> g_user \<Rightarrow> 'j response" where
  "get_my_roles bootstrap_user_data g =
     (case g of
        NoAuthorization \<Rightarrow> response_401
      | UserNone \<Rightarrow> response_401
      | UserObj u \<Rightarrow>
          if is_anonymous u then response_401
          else response 200 (Result (bootstrap_user_data u True)))"

text \<open>A request is unauthenticated when its user is missing or anonymous.\<close>

definition unauthenticated :: "g_user \<Rightarrow> bool" where
  "unauthenticated g =
     (case g of NoAuthorization \<Rightarrow> True | UserNone \<Rightarrow> True | UserObj u \<Rightarrow> is_anonymous u)"

section \<open>The dataset model and Python values\<close>

record table_column =
  column_name :: string
  column_type :: "nat list"
  column_extra :: "string option"

record sql_metric =
  metric_name :: string
  metric_extra :: "string option"

record sqla_table =
  tbl_id :: "int option"
  uuid :: string
  table_name :: string
  schema :: "string option"
  database_id :: int
  columns :: "table_column list"
  metrics :: "sql_metric list"
  owners :: "user list"

text \<open>
  The values an update payload holds under one key, and model objects. Python's
  \<open>bool\<close> is a subclass of \<open>int\<close> (\<open>True == 1\<close>, same hash), so booleans are
  \<open>PInt\<close>. Equality of these values is Python's \<open>==\<close>: an object of the ORM compares
  by identity and is never equal to an integer, a string, a list or a dictionary.
  A dictionary is the list of its items. Lists and dictionaries are not hashable.
\<close>

datatype pyobj =
    PNone
  | PInt int
  | PStr string
  | PList "pyobj list"
  | PDict "(string \<times> pyobj) list"
  | PModel sqla_table

fun truthy :: "pyobj \<Rightarrow> bool" where
  "truthy PNone = False"
| "truthy (PInt n) = (n \<noteq> 0)"
| "truthy (PStr s) = (s \<noteq> [])"
| "truthy (PList l) = (l \<noteq> [])"
| "truthy (PDict d) = (d \<noteq> [])"
| "truthy (PModel m) = True"

fun hashable :: "pyobj \<Rightarrow> bool" where
  "hashable (PList l) = False"
| "hashable (PDict d) = False"
| "hashable v = True"

text \<open>What a request payload can hold: no ORM object.\<close>

fun payload_value :: "pyobj \<Rightarrow> bool" where
  "payload_value (PModel m) = False"
| "payload_value v = True"

section \<open>The session and the parts of the DAO and security manager in use\<close>

text \<open>
  The mapper's session: what is committed, and what the open transaction sees.
  \<open>rollback\<close> throws the transaction's changes away, \<open>commit\<close> makes them the stored
  state.
\<close>

record 's db =
  committed :: 's
  session :: 's

definition rollback :: "'s db \<Rightarrow> 's db" where
  "rollback d = d\<lparr>session := committed d\<rparr>"

definition commit :: "'s db \<Rightarrow> 's db" where
  "commit d = d\<lparr>committed := session d\<rparr>"

datatype owners_value = OwnerIds "int list" | Owners "user list"

record properties =
  p_owners :: "owners_value option"
  p_database :: "pyobj option"
  p_table_name :: "string option"
  p_columns :: "(string \<rightharpoonup> pyobj) list option"
  p_metrics :: "(string \<rightharpoonup> pyobj) list option"
  p_override_columns :: bool

text \<open>
  \<open>DatamanageDAO\<close>, \<open>security_manager.raise_for_ownership\<close>, \<open>UpdateMixin.populate_owners\<close>
  and \<open>db.session.commit\<close> are not defined in the sources at hand: they are the fields
  of this record. A field that may raise returns the exception (\<open>Some\<close>, \<open>Inl\<close>).
  \<open>raise_for_ownership\<close> reads the requesting user from \<open>g\<close>.
\<close>

record 's env =
  find_by_id :: "'s \<Rightarrow> int \<Rightarrow> sqla_table option"
  raise_for_ownership :: "g_user \<Rightarrow> sqla_table \<Rightarrow> exn option"
  dao_delete :: "sqla_table \<Rightarrow> 's \<Rightarrow> (exn + sqla_table) \<times> 's"
  session_commit :: "'s \<Rightarrow> exn option"
  dao_update :: "sqla_table \<Rightarrow> properties \<Rightarrow> 's db \<Rightarrow> (exn + sqla_table) \<times> 's db"
  validate_update_uniqueness :: "'s \<Rightarrow> int \<Rightarrow> int \<Rightarrow> string option \<Rightarrow> bool"
  populate_owners :: "'s \<Rightarrow> g_user \<Rightarrow> int list option \<Rightarrow> validation_error + user list"
  validate_columns_exist :: "'s \<Rightarrow> int \<Rightarrow> pyobj list \<Rightarrow> bool"
  validate_columns_uniqueness :: "'s \<Rightarrow> int \<Rightarrow> pyobj list \<Rightarrow> bool"
  validate_metrics_exist :: "'s \<Rightarrow> int \<Rightarrow> pyobj list \<Rightarrow> bool"
  validate_metrics_uniqueness :: "'s \<Rightarrow> int \<Rightarrow> pyobj list \<Rightarrow> bool"

section \<open>commands/delete.py\<close>

text \<open>
  \<open>validate\<close>: the not-found check, then the ownership check; only
  \<open>SupersetSecurityException\<close> is turned into the forbidden error.
\<close>

definition delete_validate :: "'s env \<Rightarrow> g_user \<Rightarrow> 's db \<Rightarrow> int \<Rightarrow> exn + sqla_table" where
  "delete_validate e g d model_id =
     (case find_by_id e (session d) model_id of
        None \<Rightarrow> Inl DatamanageNotFoundError
      | Some m \<Rightarrow>
          (case raise_for_ownership e g m of
             None \<Rightarrow> Inr m
           | Some ex \<Rightarrow>
               if ex = SupersetSecurityException then Inl DatamanageForbiddenError
               else Inl ex))"

text \<open>
  The handler of \<open>run\<close>: \<open>except (SQLAlchemyError, DAODeleteFailedError)\<close> logs, rolls
  back and raises the delete-failed error; any other exception goes through.
\<close>

definition delete_handler :: "exn \<Rightarrow> 's db \<Rightarrow> (exn + sqla_table) \<times> 's db" where
  "delete_handler ex d =
     (if ex = SQLAlchemyError \<or> ex = DAODeleteFailedError
      then (Inl DatamanageDeleteFailedError, rollback d)
      else (Inl ex, d))"

definition delete_run :: "'s env \<Rightarrow> g_user \<Rightarrow> 's db \<Rightarrow> int \<Rightarrow> (exn + sqla_table) \<times> 's db" where
  "delete_run e g d model_id =
     (case delete_validate e g d model_id of
        Inl ex \<Rightarrow> (Inl ex, d)
      | Inr m \<Rightarrow>
          (case dao_delete e m (session d) of
             (Inl ex, s') \<Rightarrow> delete_handler ex (d\<lparr>session := s'\<rparr>)
           | (Inr datamanage, s') \<Rightarrow>
               (case session_commit e s' of
                  Some ex \<Rightarrow> delete_handler ex (d\<lparr>session := s'\<rparr>)
                | None \<Rightarrow> (Inr datamanage, commit (d\<lparr>session := s'\<rparr>)))))"

section \<open>commands/update.py\<close>

text \<open>
  \<open>[item[key] for item in data]\<close>: a record without the key raises \<open>KeyError\<close>.
\<close>

fun key_values :: "(string \<rightharpoonup> 'v) list \<Rightarrow> string \<Rightarrow> exn + 'v list" where
  "key_values [] key = Inr []"
| "key_values (item # data) key =
     (case item key of
        None \<Rightarrow> Inl (KeyError key)
      | Some v \<Rightarrow>
          (case key_values data key of
             Inl ex \<Rightarrow> Inl ex
           | Inr vs \<Rightarrow> Inr (v # vs)))"

text \<open>
  \<open>collections.Counter\<close>: a dictionary from element to count, in the order of first
  occurrence. Counting an element hashes it: the first element that is not hashable
  raises \<open>TypeError\<close>.
\<close>

fun counter_add :: "'v \<Rightarrow> ('v \<times> nat) list \<Rightarrow> ('v \<times> nat) list" where
  "counter_add v [] = [(v, 1)]"
| "counter_add v ((k, c) # kcs) =
     (if k = v then (k, c + 1) # kcs else (k, c) # counter_add v kcs)"

fun Counter_from :: "pyobj list \<Rightarrow> (pyobj \<times> nat) list \<Rightarrow> exn + (pyobj \<times> nat) list" where
  "Counter_from [] acc = Inr acc"
| "Counter_from (v # vs) acc =
     (if hashable v then Counter_from vs (counter_add v acc)
      else Inl (TypeError ''unhashable type''))"

definition Counter :: "pyobj list \<Rightarrow> exn + (pyobj \<times> nat) list" where
  "Counter vs = Counter_from vs []"

text \<open>
  The list comprehension is evaluated first, so a missing key is reported before an
  unhashable value.
\<close>

definition get_duplicates :: "(string \<rightharpoonup> pyobj) list \<Rightarrow> string \<Rightarrow> exn + pyobj list" where
  "get_duplicates data key =
     (case key_values data key of
        Inl ex \<Rightarrow> Inl ex
      | Inr vs \<Rightarrow>
          (case Counter vs of
             Inl ex \<Rightarrow> Inl ex
           | Inr counts \<Rightarrow> Inr (map fst (filter (\<lambda>(name, count). count > 1) counts))))"

text \<open>A record that carries the key with a hashable value.\<close>

definition has_hashable :: "string \<Rightarrow> (string \<rightharpoonup> pyobj) \<Rightarrow> bool" where
  "has_hashable key r = (case r key of None \<Rightarrow> False | Some v \<Rightarrow> hashable v)"

text \<open>
  A list of columns or metrics of a payload is well formed when it is absent or each
  of its records carries the name key with a hashable value.
\<close>

definition well_formed :: "string \<Rightarrow> (string \<rightharpoonup> pyobj) list option \<Rightarrow> bool" where
  "well_formed key l = (case l of None \<Rightarrow> True | Some rs \<Rightarrow> list_all (has_hashable key) rs)"

text \<open>The records that carry the key \<open>"id"\<close>, and those that do not.\<close>

definition with_id :: "(string \<rightharpoonup> 'v) list \<Rightarrow> (string \<rightharpoonup> 'v) list" where
  "with_id items = filter (\<lambda>item. item ''id'' \<noteq> None) items"

definition without_id :: "(string \<rightharpoonup> 'v) list \<Rightarrow> (string \<rightharpoonup> 'v) list" where
  "without_id items = filter (\<lambda>item. item ''id'' = None) items"

text \<open>
  \<open>_validate_columns\<close> and \<open>_validate_metrics\<close> append to the list of validation errors;
  the list after the call is returned. A list comprehension that raises ends the call.
\<close>

definition validate_columns ::
  "'s env \<Rightarrow> 's \<Rightarrow> int \<Rightarrow> bool \<Rightarrow> (string \<rightharpoonup> pyobj) list \<Rightarrow> validation_error list
     \<Rightarrow> exn + validation_error list" where
  "validate_columns e s model_id override_columns cols exceptions =
     (case get_duplicates cols ''column_name'' of
        Inl ex \<Rightarrow> Inl ex
      | Inr dups \<Rightarrow>
          if dups \<noteq> [] then Inr (exceptions @ [DatamanageColumnsDuplicateValidationError])
          else
            (case key_values (with_id cols) ''id'' of
               Inl ex \<Rightarrow> Inl ex
             | Inr columns_ids \<Rightarrow>
                 (let exceptions1 =
                        (if \<not> validate_columns_exist e s model_id columns_ids
                         then exceptions @ [DatamanageColumnNotFoundValidationError]
                         else exceptions)
                  in if \<not> override_columns
                     then
                       (case key_values (without_id cols) ''column_name'' of
                          Inl ex \<Rightarrow> Inl ex
                        | Inr columns_names \<Rightarrow>
                            if \<not> validate_columns_uniqueness e s model_id columns_names
                            then Inr (exceptions1 @ [DatamanageColumnsExistsValidationError])
                            else Inr exceptions1)
                     else Inr exceptions1)))"

definition validate_metrics ::
  "'s env \<Rightarrow> 's \<Rightarrow> int \<Rightarrow> (string \<rightharpoonup> pyobj) list \<Rightarrow> validation_error list
     \<Rightarrow> exn + validation_error list" where
  "validate_metrics e s model_id mets exceptions =
     (case get_duplicates mets ''metric_name'' of
        Inl ex \<Rightarrow> Inl ex
      | Inr dups \<Rightarrow>
          if dups \<noteq> [] then Inr (exceptions @ [DatamanageMetricsDuplicateValidationError])
          else
            (case key_values (with_id mets) ''id'' of
               Inl ex \<Rightarrow> Inl ex
             | Inr metrics_ids \<Rightarrow>
                 (let exceptions1 =
                        (if \<not> validate_metrics_exist e s model_id metrics_ids
                         then exceptions @ [DatamanageMetricsNotFoundValidationError]
                         else exceptions)
                  in (case key_values (without_id mets) ''metric_name'' of
                        Inl ex \<Rightarrow> Inl ex
                      | Inr metric_names \<Rightarrow>
                          if \<not> validate_metrics_uniqueness e s model_id metric_names
                          then Inr (exceptions1 @ [DatamanageMetricsExistsValidationError])
                          else Inr exceptions1))))"

text \<open>\<open>self._properties.get("owners")\<close> as the list of ids the request carries.\<close>

definition owner_ids_of :: "properties \<Rightarrow> int list option" where
  "owner_ids_of props =
     (case p_owners props of Some (OwnerIds ids) \<Rightarrow> Some ids | _ \<Rightarrow> None)"

text \<open>
  \<open>if database_id and database_id != self._model: exceptions.append(...)\<close>: the
  payload's value is compared with the model object.
\<close>

definition database_check ::
  "sqla_table \<Rightarrow> pyobj option \<Rightarrow> validation_error list \<Rightarrow> validation_error list" where
  "database_check m database_id' exceptions =
     (if (case database_id' of None \<Rightarrow> False | Some v \<Rightarrow> truthy v \<and> v \<noteq> PModel m)
      then exceptions @ [DatabaseChangeValidationError] else exceptions)"

text \<open>
  The validation errors collected by \<open>validate\<close> once the model is found and the
  ownership check has passed, in the order of the source: uniqueness of the name, the
  database check, the owners, the columns if the list is non-empty, the metrics if the
  list is non-empty. The properties are returned with the populated owners.
\<close>

definition collect_exceptions ::
  "'s env \<Rightarrow> g_user \<Rightarrow> 's \<Rightarrow> int \<Rightarrow> sqla_table \<Rightarrow> properties
     \<Rightarrow> exn + (validation_error list \<times> properties)" where
  "collect_exceptions e g s model_id m props =
     (let database_id' = p_database props;
          table_name' = p_table_name props;
          ex1 = (if \<not> validate_update_uniqueness e s (database_id m) model_id table_name'
                 then [DatamanageExistsValidationError table_name'] else []);
          ex2 = database_check m database_id' ex1;
          (ex3, props1) =
             (case populate_owners e s g (owner_ids_of props) of
                Inr os \<Rightarrow> (ex2, props\<lparr>p_owners := Some (Owners os)\<rparr>)
              | Inl ex \<Rightarrow> (ex2 @ [ex], props))
      in case (case p_columns props1 of
                 None \<Rightarrow> Inr ex3
               | Some cols \<Rightarrow>
                   if cols \<noteq> []
                   then validate_columns e s model_id (p_override_columns props1) cols ex3
                   else Inr ex3) of
           Inl ex \<Rightarrow> Inl ex
         | Inr ex4 \<Rightarrow>
             (case (case p_metrics props1 of
                      None \<Rightarrow> Inr ex4
                    | Some mets \<Rightarrow>
                        if mets \<noteq> [] then validate_metrics e s model_id mets ex4
                        else Inr ex4) of
                Inl ex \<Rightarrow> Inl ex
              | Inr ex5 \<Rightarrow> Inr (ex5, props1)))"

definition update_validate ::
  "'s env \<Rightarrow> g_user \<Rightarrow> 's \<Rightarrow> int \<Rightarrow> properties \<Rightarrow> exn + (sqla_table \<times> properties)" where
  "update_validate e g s model_id props =
     (case find_by_id e s model_id of
        None \<Rightarrow> Inl DatamanageNotFoundError
      | Some m \<Rightarrow>
          (case raise_for_ownership e g m of
             Some ex \<Rightarrow>
               if ex = SupersetSecurityException then Inl DatamanageForbiddenError
               else Inl ex
           | None \<Rightarrow>
               (case collect_exceptions e g s model_id m props of
                  Inl ex \<Rightarrow> Inl ex
                | Inr (exceptions, props1) \<Rightarrow>
                    if exceptions \<noteq> [] then Inl (DatamanageInvalidError exceptions)
                    else Inr (m, props1))))"

text \<open>
  The constructor copies the data and stores \<open>override_columns\<close> in it; \<open>run\<close>
  validates and delegates to \<open>DatamanageDAO.update\<close>, whose \<open>DAOUpdateFailedError\<close>
  becomes the update-failed error.
\<close>

definition UpdateDatamanageCommand :: "int \<Rightarrow> properties \<Rightarrow> bool \<Rightarrow> int \<times> properties" where
  "UpdateDatamanageCommand model_id data override_columns =
     (model_id, data\<lparr>p_override_columns := override_columns\<rparr>)"

definition update_run ::
  "'s env \<Rightarrow> g_user \<Rightarrow> 's db \<Rightarrow> int \<times> properties \<Rightarrow> (exn + sqla_table) \<times> 's db" where
  "update_run e g d cmd =
     (case update_validate e g (session d) (fst cmd) (snd cmd) of
        Inl ex \<Rightarrow> (Inl ex, d)
      | Inr (m, props1) \<Rightarrow>
          (case dao_update e m props1 d of
             (Inl ex, d') \<Rightarrow>
               (if ex = DAOUpdateFailedError then Inl DatamanageUpdateFailedError else Inl ex, d')
           | (Inr datamanage, d') \<Rightarrow> (Inr datamanage, d')))"

section \<open>commands/export.py: running the export command\<close>

text \<open>
  Modelled from the spec: \<open>ExportModelsCommand\<close>, the base class from which
  \<open>ExportDatamanageCommand\<close> inherits \<open>run\<close> and \<open>validate\<close>, is missing from the
  sources at hand; the subclass supplies \<open>dao\<close>, \<open>not_found\<close> and \<open>_export\<close> only. The
  specification says that the Export command, like Delete and Update, validates
  ownership and input and delegates to the DAO, that a command is a
  validate-then-execute operation, and that errors are the domain's not-found and
  forbidden exceptions. So \<open>validate\<close> looks each id up through the DAO (\<open>not_found\<close> when
  there is no dataset) and checks its ownership (forbidden when the check fails), and
  \<open>run\<close> validates and then yields the files of each dataset. \<open>_export\<close> is a parameter.
\<close>

fun export_validate :: "'s env \<Rightarrow> g_user \<Rightarrow> 's \<Rightarrow> int list \<Rightarrow> exn + sqla_table list" where
  "export_validate e g s [] = Inr []"
| "export_validate e g s (model_id # model_ids) =
     (case find_by_id e s model_id of
        None \<Rightarrow> Inl DatamanageNotFoundError
      | Some m \<Rightarrow>
          (case raise_for_ownership e g m of
             Some ex \<Rightarrow>
               if ex = SupersetSecurityException then Inl DatamanageForbiddenError
               else Inl ex
           | None \<Rightarrow>
               (case export_validate e g s model_ids of
                  Inl ex \<Rightarrow> Inl ex
                | Inr ms \<Rightarrow> Inr (m # ms))))"

definition export_run ::
  "'s env \<Rightarrow> g_user \<Rightarrow> 's db \<Rightarrow> (sqla_table \<Rightarrow> bool \<Rightarrow> 'f list) \<Rightarrow> int list \<Rightarrow> bool
     \<Rightarrow> (exn + 'f list) \<times> 's db" where
  "export_run e g d export_model model_ids export_related =
     (case export_validate e g (session d) model_ids of
        Inl ex \<Rightarrow> (Inl ex, d)
      | Inr models \<Rightarrow> (Inr (concat (map (\<lambda>m. export_model m export_related) models)), d))"

section \<open>Export and import payloads, and the JSON codec\<close>

text \<open>
  A value under one key of an export or import payload: \<open>None\<close>, a Python string, or
  any other decoded value (a dictionary, a list, a number). \<open>json.dumps\<close> and
  \<open>json.loads\<close> belong to the standard library and are parameters; \<open>json.dumps\<close>
  gives \<open>None\<close> where it raises \<open>TypeError\<close>, \<open>json.loads\<close> where it raises
  \<open>JSONDecodeError\<close>. \<open>json_truthy\<close> is the truth value of a decoded non-string value.
\<close>

datatype 'j field = FNone | FStr string | FJson 'j

record 'j json =
  json_dumps :: "'j field \<Rightarrow> string option"
  json_loads :: "string \<Rightarrow> 'j field option"
  json_truthy :: "'j \<Rightarrow> bool"

definition field_truthy :: "'j json \<Rightarrow> 'j field \<Rightarrow> bool" where
  "field_truthy js v =
     (case v of FNone \<Rightarrow> False | FStr s \<Rightarrow> s \<noteq> [] | FJson j \<Rightarrow> json_truthy js j)"

text \<open>
  The payload dictionary: the scalar keys, and the lists under \<open>"metrics"\<close> and
  \<open>"columns"\<close> (\<open>None\<close> when the key is absent), each a list of dictionaries.
\<close>

record 'j config =
  cfg_uuid :: "string option"
  cfg_id :: "int option"
  cfg_database_id :: int
  cfg_data :: "string option"
  cfg_fields :: "string \<rightharpoonup> 'j field"
  cfg_metrics :: "(string \<rightharpoonup> 'j field) list option"
  cfg_columns :: "(string \<rightharpoonup> 'j field) list option"

definition JSON_KEYS :: "string list" where
  "JSON_KEYS = [''params'', ''template_params'', ''extra'']"

subsection \<open>commands/export.py: decoding on export\<close>

text \<open>
  \<open>if payload.get(key): try: payload[key] = json.loads(payload[key]) except
  JSONDecodeError: log\<close>. \<open>json.loads\<close> of a value that is not a string raises
  \<open>TypeError\<close>, which is not caught.
\<close>

definition decode_key ::
  "'j json \<Rightarrow> string \<Rightarrow> (string \<rightharpoonup> 'j field) \<Rightarrow> exn + (string \<rightharpoonup> 'j field)" where
  "decode_key js key payload =
     (case payload key of
        None \<Rightarrow> Inr payload
      | Some v \<Rightarrow>
          if field_truthy js v
          then (case v of
                  FStr s \<Rightarrow>
                    (case json_loads js s of
                       Some d \<Rightarrow> Inr (payload(key \<mapsto> d))
                     | None \<Rightarrow> Inr payload)
                | _ \<Rightarrow> Inl (TypeError ''the JSON object must be str, bytes or bytearray''))
          else Inr payload)"

fun decode_keys ::
  "'j json \<Rightarrow> string list \<Rightarrow> (string \<rightharpoonup> 'j field) \<Rightarrow> exn + (string \<rightharpoonup> 'j field)" where
  "decode_keys js [] payload = Inr payload"
| "decode_keys js (key # keys) payload =
     (case decode_key js key payload of
        Inl ex \<Rightarrow> Inl ex
      | Inr payload1 \<Rightarrow> decode_keys js keys payload1)"

fun decode_attributes ::
  "'j json \<Rightarrow> (string \<rightharpoonup> 'j field) list \<Rightarrow> exn + (string \<rightharpoonup> 'j field) list" where
  "decode_attributes js [] = Inr []"
| "decode_attributes js (attributes # rest) =
     (case decode_key js ''extra'' attributes of
        Inl ex \<Rightarrow> Inl ex
      | Inr attributes1 \<Rightarrow>
          (case decode_attributes js rest of
             Inl ex \<Rightarrow> Inl ex
           | Inr rest1 \<Rightarrow> Inr (attributes1 # rest1)))"

definition decode_children ::
  "'j json \<Rightarrow> (string \<rightharpoonup> 'j field) list option
     \<Rightarrow> exn + (string \<rightharpoonup> 'j field) list option" where
  "decode_children js children =
     (case children of
        None \<Rightarrow> Inr None
      | Some l \<Rightarrow>
          (case decode_attributes js l of Inl ex \<Rightarrow> Inl ex | Inr l1 \<Rightarrow> Inr (Some l1)))"

text \<open>The two decoding loops of \<open>_export\<close>: the JSON keys, then metrics, then columns.\<close>

definition export_decode :: "'j json \<Rightarrow> 'j config \<Rightarrow> exn + 'j config" where
  "export_decode js payload =
     (case decode_keys js JSON_KEYS (cfg_fields payload) of
        Inl ex \<Rightarrow> Inl ex
      | Inr fields1 \<Rightarrow>
          (case decode_children js (cfg_metrics payload) of
             Inl ex \<Rightarrow> Inl ex
           | Inr metrics1 \<Rightarrow>
               (case decode_children js (cfg_columns payload) of
                  Inl ex \<Rightarrow> Inl ex
                | Inr columns1 \<Rightarrow>
                    Inr (payload\<lparr>cfg_fields := fields1, cfg_metrics := metrics1,
                                 cfg_columns := columns1\<rparr>))))"

text \<open>
  The payload of the dataset file: decoded, then with the version and the database's
  uuid. \<open>EXPORT_VERSION\<close> is a parameter.
\<close>

definition export_payload :: "'j json \<Rightarrow> string \<Rightarrow> string \<Rightarrow> 'j config \<Rightarrow> exn + 'j config" where
  "export_payload js EXPORT_VERSION database_uuid payload =
     (case export_decode js payload of
        Inl ex \<Rightarrow> Inl ex
      | Inr payload1 \<Rightarrow>
          Inr (payload1\<lparr>cfg_fields :=
                 (cfg_fields payload1)(''version'' \<mapsto> FStr EXPORT_VERSION,
                                       ''database_uuid'' \<mapsto> FStr database_uuid)\<rparr>))"

subsection \<open>importers/v1/utils.py: encoding on import\<close>

text \<open>
  \<open>if config.get(key) is not None: try: config[key] = json.dumps(config[key]) except
  TypeError: log\<close>; for the \<open>extra\<close> of a metric or column the handler also sets the
  value to \<open>None\<close>.
\<close>

definition encode_key :: "'j json \<Rightarrow> string \<Rightarrow> (string \<rightharpoonup> 'j field) \<Rightarrow> (string \<rightharpoonup> 'j field)" where
  "encode_key js key cfg =
     (case cfg key of
        None \<Rightarrow> cfg
      | Some FNone \<Rightarrow> cfg
      | Some v \<Rightarrow>
          (case json_dumps js v of
             Some s \<Rightarrow> cfg(key \<mapsto> FStr s)
           | None \<Rightarrow> cfg))"

definition encode_attributes :: "'j json \<Rightarrow> (string \<rightharpoonup> 'j field) \<Rightarrow> (string \<rightharpoonup> 'j field)" where
  "encode_attributes js attributes =
     (case attributes ''extra'' of
        None \<Rightarrow> attributes
      | Some FNone \<Rightarrow> attributes
      | Some v \<Rightarrow>
          (case json_dumps js v of
             Some s \<Rightarrow> attributes(''extra'' \<mapsto> FStr s)
           | None \<Rightarrow> attributes(''extra'' \<mapsto> FNone)))"

definition import_encode :: "'j json \<Rightarrow> 'j config \<Rightarrow> 'j config" where
  "import_encode js cfg =
     cfg\<lparr>cfg_fields := foldl (\<lambda>c key. encode_key js key c) (cfg_fields cfg) JSON_KEYS,
         cfg_metrics := map_option (map (encode_attributes js)) (cfg_metrics cfg),
         cfg_columns := map_option (map (encode_attributes js)) (cfg_columns cfg)\<rparr>"

text \<open>
  A value round-trips through the codec when it is \<open>None\<close> (left alone by both sides)
  or \<open>json.dumps\<close> encodes it as a non-empty text that \<open>json.loads\<close> decodes to it.
\<close>

definition roundtrips :: "'j json \<Rightarrow> 'j field \<Rightarrow> bool" where
  "roundtrips js v =
     (v = FNone \<or>
      (case json_dumps js v of
         Some s \<Rightarrow> s \<noteq> [] \<and> json_loads js s = Some v
       | None \<Rightarrow> False))"

definition key_roundtrips :: "'j json \<Rightarrow> string \<Rightarrow> (string \<rightharpoonup> 'j field) \<Rightarrow> bool" where
  "key_roundtrips js key d = (case d key of None \<Rightarrow> True | Some v \<Rightarrow> roundtrips js v)"

definition config_roundtrips :: "'j json \<Rightarrow> 'j config \<Rightarrow> bool" where
  "config_roundtrips js cfg =
     (list_all (\<lambda>key. key_roundtrips js key (cfg_fields cfg))
        [''params'', ''template_params'', ''extra''] \<and>
      list_all (key_roundtrips js ''extra'') (case cfg_metrics cfg of None \<Rightarrow> [] | Some l \<Rightarrow> l) \<and>
      list_all (key_roundtrips js ''extra'') (case cfg_columns cfg of None \<Rightarrow> [] | Some l \<Rightarrow> l))"

text \<open>
  The value under one key after the importer's step and after the exporter's step, as
  functions of the value before (\<open>None\<close> when the key is absent).
\<close>

definition encoded_value :: "'j json \<Rightarrow> 'j field option \<Rightarrow> 'j field option" where
  "encoded_value js w =
     (case w of
        None \<Rightarrow> None
      | Some FNone \<Rightarrow> Some FNone
      | Some v \<Rightarrow> (case json_dumps js v of Some s \<Rightarrow> Some (FStr s) | None \<Rightarrow> Some v))"

definition decoded_value :: "'j json \<Rightarrow> 'j field option \<Rightarrow> exn + 'j field option" where
  "decoded_value js w =
     (case w of
        None \<Rightarrow> Inr None
      | Some v \<Rightarrow>
          if field_truthy js v
          then (case v of
                  FStr s \<Rightarrow> (case json_loads js s of Some d \<Rightarrow> Inr (Some d) | None \<Rightarrow> Inr (Some v))
                | _ \<Rightarrow> Inl (TypeError ''the JSON object must be str, bytes or bytearray''))
          else Inr (Some v))"

section \<open>importers/v1/utils.py: loading CSV data\<close>

record database =
  db_id :: int
  sqlalchemy_uri :: string

datatype connection = SessionConnection | Engine

record 'd to_sql_call =
  ts_name :: string
  ts_con :: connection
  ts_schema :: "string option"
  ts_if_exists :: string
  ts_chunksize :: nat
  ts_dtype :: "(string \<times> sqla_type) list"
  ts_index :: bool
  ts_method :: string
  ts_df :: 'd

text \<open>The calls \<open>load_data\<close> makes to the outside, in the order it makes them.\<close>

datatype ('b, 'd) io_event =
    Urlopen string
  | GzipOpen 'b
  | ReadCsv 'b string
  | ToSql "'d to_sql_call"

text \<open>
  \<open>urllib.request.urlopen\<close>, \<open>gzip.open\<close>, \<open>pandas.read_csv\<close>, \<open>DataFrame.keys\<close>,
  \<open>pandas.to_datetime\<close> on one column and the application's
  \<open>SQLALCHEMY_DATABASE_URI\<close> are parameters, with the interpreter's Unicode tables:
  \<open>'b\<close> is a byte stream, \<open>'d\<close> a data frame.
\<close>

record ('b, 'd) io =
  unicode_tables :: unicode
  urlopen :: "string \<Rightarrow> 'b"
  gzip_open :: "'b \<Rightarrow> 'b"
  read_csv :: "'b \<Rightarrow> string \<Rightarrow> 'd"
  df_keys :: "'d \<Rightarrow> string list"
  to_datetime :: "'d \<Rightarrow> string \<Rightarrow> 'd"
  SQLALCHEMY_DATABASE_URI :: "string option"

definition CHUNKSIZE :: nat where
  "CHUNKSIZE = 512"

definition endswith :: "string \<Rightarrow> string \<Rightarrow> bool" where
  "endswith s suffix =
     (length suffix \<le> length s \<and> drop (length s - length suffix) s = suffix)"

text \<open>Assignment to a dictionary key: in place when the key is there, else at the end.\<close>

fun dict_set :: "'k \<Rightarrow> 'v \<Rightarrow> ('k \<times> 'v) list \<Rightarrow> ('k \<times> 'v) list" where
  "dict_set k v [] = [(k, v)]"
| "dict_set k v ((k', v') # kvs) =
     (if k' = k then (k, v) # kvs else (k', v') # dict_set k v kvs)"

fun get_dtype_from ::
  "unicode \<Rightarrow> string list \<Rightarrow> table_column list \<Rightarrow> (string \<times> sqla_type) list
     \<Rightarrow> exn + (string \<times> sqla_type) list" where
  "get_dtype_from U keys [] acc = Inr acc"
| "get_dtype_from U keys (column # cols) acc =
     (if column_name column \<in> set keys
      then (case get_sqla_type U (column_type column) of
              Inl ex \<Rightarrow> Inl ex
            | Inr t \<Rightarrow> get_dtype_from U keys cols (dict_set (column_name column) t acc))
      else get_dtype_from U keys cols acc)"

definition get_dtype ::
  "('b, 'd) io \<Rightarrow> 'd \<Rightarrow> sqla_table \<Rightarrow> exn + (string \<times> sqla_type) list" where
  "get_dtype io df datamanage =
     get_dtype_from (unicode_tables io) (df_keys io df) (columns datamanage) []"

definition is_temporal :: "sqla_type \<Rightarrow> bool" where
  "is_temporal t = (case t of Date \<Rightarrow> True | DateTime tz \<Rightarrow> True | _ \<Rightarrow> False)"

definition convert_temporal :: "('b, 'd) io \<Rightarrow> (string \<times> sqla_type) list \<Rightarrow> 'd \<Rightarrow> 'd" where
  "convert_temporal io dtype df =
     foldl (\<lambda>d (column_name, sqla_type).
              if is_temporal sqla_type then to_datetime io d column_name else d) df dtype"

text \<open>
  \<open>load_data\<close>: the events it causes and the exception it ends with, if any (an
  unknown column type, raised by \<open>get_dtype\<close> after the file has been read).
\<close>

definition load_data ::
  "('b, 'd) io \<Rightarrow> string \<Rightarrow> sqla_table \<Rightarrow> database \<Rightarrow> ('b, 'd) io_event list \<times> exn option" where
  "load_data io data_uri datamanage db =
     (let data0 = urlopen io data_uri;
          ev0 = [Urlopen data_uri];
          (data, ev1) =
             (if endswith data_uri ''.gz''
              then (gzip_open io data0, ev0 @ [GzipOpen data0])
              else (data0, ev0));
          df = read_csv io data ''utf-8'';
          ev2 = ev1 @ [ReadCsv data ''utf-8'']
      in case get_dtype io df datamanage of
           Inl ex \<Rightarrow> (ev2, Some ex)
         | Inr dtype \<Rightarrow>
             (ev2 @
              [ToSql \<lparr>ts_name = table_name datamanage,
                      ts_con = (if Some (sqlalchemy_uri db) = SQLALCHEMY_DATABASE_URI io
                                then SessionConnection else Engine),
                      ts_schema = schema datamanage,
                      ts_if_exists = ''replace'',
                      ts_chunksize = CHUNKSIZE,
                      ts_dtype = dtype,
                      ts_index = False,
                      ts_method = ''multi'',
                      ts_df = convert_temporal io dtype df\<rparr>],
              None))"

section \<open>importers/v1/utils.py: import_datamanage\<close>

text \<open>
  The session holds the table objects; an object is referred to by its position. The
  calls of \<open>load_data\<close> to the outside are logged.
\<close>

record ('b, 'd) istate =
  tables :: "sqla_table list"
  io_log :: "('b, 'd) io_event list"

fun first_index :: "('a \<Rightarrow> bool) \<Rightarrow> 'a list \<Rightarrow> nat option" where
  "first_index P [] = None"
| "first_index P (x # xs) = (if P x then Some 0 else map_option Suc (first_index P xs))"

text \<open>\<open>session.query(SqlaTable).filter_by(uuid=...)\<close> with \<open>.first()\<close> and with \<open>.one()\<close>.\<close>

definition query_first :: "sqla_table list \<Rightarrow> string \<Rightarrow> nat option" where
  "query_first ts u = first_index (\<lambda>t. uuid t = u) ts"

definition query_one :: "sqla_table list \<Rightarrow> string \<Rightarrow> exn + nat" where
  "query_one ts u =
     (case filter (\<lambda>i. uuid (ts ! i) = u) [0..<length ts] of
        [] \<Rightarrow> Inl NoResultFound
      | [i] \<Rightarrow> Inr i
      | _ \<Rightarrow> Inl MultipleResultsFound)"

text \<open>\<open>session.flush()\<close> gives every pending object a fresh primary key.\<close>

fun assign_ids :: "int \<Rightarrow> sqla_table list \<Rightarrow> sqla_table list" where
  "assign_ids n [] = []"
| "assign_ids n (t # ts) =
     (case tbl_id t of
        None \<Rightarrow> t\<lparr>tbl_id := Some n\<rparr> # assign_ids (n + 1) ts
      | Some k \<Rightarrow> t # assign_ids n ts)"

definition flush :: "sqla_table list \<Rightarrow> sqla_table list" where
  "flush ts =
     assign_ids (1 + foldl (\<lambda>m t. case tbl_id t of None \<Rightarrow> m | Some k \<Rightarrow> max m k) 0 ts) ts"

text \<open>\<open>sync = ["columns", "metrics"] if overwrite else []\<close>\<close>

definition sync_list :: "bool \<Rightarrow> string list" where
  "sync_list overwrite = (if overwrite then [''columns'', ''metrics''] else [])"

text \<open>
  \<open>SqlaTable.import_from_dict\<close>, \<open>Database.has_table_by_name\<close> (\<open>None\<close> when it raises)
  and the \<open>database\<close> relationship of a table are parameters, with the JSON codec and
  the outside calls of \<open>load_data\<close>. \<open>import_from_dict\<close> returns the position of the
  imported object, or the exception, and the session's tables after the call.
\<close>

record ('j, 'b, 'd) importer =
  imp_json :: "'j json"
  imp_io :: "('b, 'd) io"
  import_from_dict :: "sqla_table list \<Rightarrow> 'j config \<Rightarrow> string list \<Rightarrow> (exn + nat) \<times> sqla_table list"
  has_table_by_name :: "sqla_table \<Rightarrow> bool option"
  database_of :: "sqla_table \<Rightarrow> database"

text \<open>
  \<open>g\<close> is \<open>None\<close> when it has no attribute \<open>user\<close> or the attribute is \<open>None\<close>.
\<close>

definition import_datamanage ::
  "('j, 'b, 'd) importer \<Rightarrow> user option \<Rightarrow> ('b, 'd) istate \<Rightarrow> 'j config \<Rightarrow> bool \<Rightarrow> bool
     \<Rightarrow> (exn + sqla_table) \<times> ('b, 'd) istate" where
  "import_datamanage imp g st config overwrite force_data =
     (case cfg_uuid config of
        None \<Rightarrow> (Inl (KeyError ''uuid''), st)
      | Some u \<Rightarrow>
          (case (case query_first (tables st) u of
                   None \<Rightarrow> Inr config
                 | Some i \<Rightarrow>
                     if \<not> overwrite then Inl (tables st ! i)
                     else Inr (config\<lparr>cfg_id := tbl_id (tables st ! i)\<rparr>)) of
             Inl existing \<Rightarrow> (Inr existing, st)
           | Inr config1 \<Rightarrow>
               (let config2 = import_encode (imp_json imp) config1;
                    sync = sync_list overwrite;
                    data_uri = cfg_data config2;
                    (r, ts1) = import_from_dict imp (tables st) config2 sync;
                    r1 = (case r of
                            Inl ex \<Rightarrow> if ex = MultipleResultsFound then query_one ts1 u else Inl ex
                          | Inr i \<Rightarrow> Inr i)
                in case r1 of
                     Inl ex \<Rightarrow> (Inl ex, st\<lparr>tables := ts1\<rparr>)
                   | Inr i \<Rightarrow>
                       (let ts2 = (if tbl_id (ts1 ! i) = None then flush ts1 else ts1);
                            datamanage = ts2 ! i;
                            table_exists =
                              (case has_table_by_name imp datamanage of
                                 None \<Rightarrow> True
                               | Some b \<Rightarrow> b);
                            (events, err) =
                              (case data_uri of
                                 None \<Rightarrow> ([], None)
                               | Some uri \<Rightarrow>
                                   if uri \<noteq> [] \<and> (\<not> table_exists \<or> force_data)
                                   then load_data (imp_io imp) uri datamanage
                                          (database_of imp datamanage)
                                   else ([], None));
                            st1 = st\<lparr>tables := ts2, io_log := io_log st @ events\<rparr>
                        in case err of
                             Some ex \<Rightarrow> (Inl ex, st1)
                           | None \<Rightarrow>
                               (case g of
                                  None \<Rightarrow> (Inr datamanage, st1)
                                | Some usr \<Rightarrow>
                                    (let dm = datamanage\<lparr>owners := owners datamanage @ [usr]\<rparr>
                                     in (Inr dm, st1\<lparr>tables := ts2[i := dm]\<rparr>)))))))"

subsection \<open>The mapper's import_from_dict\<close>

definition field_str :: "(string \<rightharpoonup> 'j field) \<Rightarrow> string \<Rightarrow> string" where
  "field_str d k = (case d k of Some (FStr s) \<Rightarrow> s | _ \<Rightarrow> [])"

definition field_str_opt :: "(string \<rightharpoonup> 'j field) \<Rightarrow> string \<Rightarrow> string option" where
  "field_str_opt d k = (case d k of Some (FStr s) \<Rightarrow> Some s | _ \<Rightarrow> None)"

definition column_of_attributes :: "(string \<rightharpoonup> 'j field) \<Rightarrow> table_column" where
  "column_of_attributes a =
     \<lparr>column_name = field_str a ''column_name'', column_type = ustr (field_str a ''type''),
      column_extra = field_str_opt a ''extra''\<rparr>"

definition metric_of_attributes :: "(string \<rightharpoonup> 'j field) \<Rightarrow> sql_metric" where
  "metric_of_attributes a =
     \<lparr>metric_name = field_str a ''metric_name'', metric_extra = field_str_opt a ''extra''\<rparr>"

definition payload_children :: "(string \<rightharpoonup> 'j field) list option \<Rightarrow> (string \<rightharpoonup> 'j field) list" where
  "payload_children c = (case c of None \<Rightarrow> [] | Some l \<Rightarrow> l)"

text \<open>
  The children of one relation after an import: with synchronisation, those of the
  payload only; without, the stored ones that the payload does not name, then those of
  the payload.
\<close>

definition sync_children :: "bool \<Rightarrow> ('a \<Rightarrow> string) \<Rightarrow> 'a list \<Rightarrow> 'a list \<Rightarrow> 'a list" where
  "sync_children sync name old new =
     (if sync then new else filter (\<lambda>c. name c \<notin> set (map name new)) old @ new)"

text \<open>
  Modelled from the spec: \<open>SqlaTable.import_from_dict\<close> (the mapper's import mixin) is
  missing from the sources at hand. The source's comment on its \<open>sync\<close> argument reads
  "should we delete columns and metrics not present in the current import?", and the
  specification says that columns and metrics are synchronized on overwrite. The
  object with the configuration's id is updated, or a new object is added when there is
  none; for a relation named in \<open>sync\<close> the children not present in the import are
  deleted, for the others they are kept.
\<close>

definition import_from_dict_spec ::
  "sqla_table list \<Rightarrow> 'j config \<Rightarrow> string list \<Rightarrow> (exn + nat) \<times> sqla_table list" where
  "import_from_dict_spec ts cfg sync =
     (let cols = map column_of_attributes (payload_children (cfg_columns cfg));
          mets = map metric_of_attributes (payload_children (cfg_metrics cfg));
          name = field_str (cfg_fields cfg) ''table_name''
      in case (case cfg_id cfg of
                 None \<Rightarrow> None
               | Some n \<Rightarrow> first_index (\<lambda>t. tbl_id t = Some n) ts) of
           Some i \<Rightarrow>
             (Inr i,
              ts[i := (ts ! i)
                   \<lparr>table_name := name,
                    columns := sync_children (''columns'' \<in> set sync) column_name
                                 (columns (ts ! i)) cols,
                    metrics := sync_children (''metrics'' \<in> set sync) metric_name
                                 (metrics (ts ! i)) mets\<rparr>])
         | None \<Rightarrow>
             (Inr (length ts),
              ts @ [\<lparr>tbl_id = None,
                      uuid = (case cfg_uuid cfg of None \<Rightarrow> [] | Some u \<Rightarrow> u),
                      table_name = name, schema = None,
                      database_id = cfg_database_id cfg,
                      columns = cols, metrics = mets, owners = []\<rparr>]))"

section \<open>An in-memory DAO for running the commands on concrete data\<close>

text \<open>
  The session state is the list of stored tables. The ownership check passes for a
  user among the owners of the table. The flag makes the mapper's delete fail.
\<close>

definition memory_env :: "bool \<Rightarrow> sqla_table list env" where
  "memory_env delete_fails =
     \<lparr>find_by_id = (\<lambda>s i. find (\<lambda>t. tbl_id t = Some i) s),
      raise_for_ownership =
        (\<lambda>g m. case g of
                  UserObj u \<Rightarrow>
                    if u \<in> set (owners m) then None else Some SupersetSecurityException
                | _ \<Rightarrow> Some SupersetSecurityException),
      dao_delete =
        (\<lambda>m s. if delete_fails then (Inl DAODeleteFailedError, s)
                else (Inr m, filter (\<lambda>t. tbl_id t \<noteq> tbl_id m) s)),
      session_commit = (\<lambda>s. None),
      dao_update =
        (\<lambda>m props d.
           (case p_table_name props of
              None \<Rightarrow> (Inr m, d)
            | Some n \<Rightarrow>
                (Inr (m\<lparr>table_name := n\<rparr>),
                 \<lparr>committed = map (\<lambda>t. if tbl_id t = tbl_id m then t\<lparr>table_name := n\<rparr> else t)
                                (session d),
                  session = map (\<lambda>t. if tbl_id t = tbl_id m then t\<lparr>table_name := n\<rparr> else t)
                              (session d)\<rparr>))),
      validate_update_uniqueness = (\<lambda>s database_id model_id name. True),
      populate_owners = (\<lambda>s g ids. Inr []),
      validate_columns_exist = (\<lambda>s model_id ids. True),
      validate_columns_uniqueness = (\<lambda>s model_id names. True),
      validate_metrics_exist = (\<lambda>s model_id ids. True),
      validate_metrics_uniqueness = (\<lambda>s model_id names. True)\<rparr>"

definition alice :: user where
  "alice = \<lparr>user_id = 1, username = ''alice'', is_anonymous = False\<rparr>"

definition bob :: user where
  "bob = \<lparr>user_id = 2, username = ''bob'', is_anonymous = False\<rparr>"

definition sales :: sqla_table where
  "sales =
     \<lparr>tbl_id = Some 1, uuid = ''b3a1'', table_name = ''sales'', schema = None,
      database_id = 7,
      columns = [\<lparr>column_name = ''day'', column_type = ustr ''DATE'', column_extra = None\<rparr>,
                 \<lparr>column_name = ''amount'', column_type = ustr ''FLOAT'', column_extra = None\<rparr>],
      metrics = [\<lparr>metric_name = ''total'', metric_extra = None\<rparr>],
      owners = [alice]\<rparr>"

definition no_properties :: properties where
  "no_properties =
     \<lparr>p_owners = None, p_database = None, p_table_name = None, p_columns = None,
      p_metrics = None, p_override_columns = False\<rparr>"

section \<open>Stand-ins for the standard library and the outside world\<close>

text \<open>
  A codec for a fragment of JSON (null, the booleans, strings without escapes), and
  an outside world that serves one CSV file, gzipped under a name ending in \<open>.gz\<close>.
  A data frame is the list of its column names, a converted column is marked.
\<close>

definition simple_json :: "bool json" where
  "simple_json =
     \<lparr>json_dumps =
        (\<lambda>v. case v of
                FNone \<Rightarrow> Some ''null''
              | FStr s \<Rightarrow> Some (CHR 0x22 # s @ [CHR 0x22])
              | FJson b \<Rightarrow> Some (if b then ''true'' else ''false'')),
      json_loads =
        (\<lambda>s. if s = ''null'' then Some FNone
              else if s = ''true'' then Some (FJson True)
              else if s = ''false'' then Some (FJson False)
              else if 2 \<le> length s \<and> hd s = CHR 0x22 \<and> last s = CHR 0x22
                   then Some (FStr (butlast (tl s)))
                   else None),
      json_truthy = (\<lambda>b. b)\<rparr>"

text \<open>
  Three entries of the Unicode tables: the dotless i (U+0131) has the upper case \<open>I\<close>,
  the sharp s (U+00DF) has \<open>SS\<close>, and U+0660 to U+0669 are the Arabic-Indic digits.
\<close>

definition unicode_sample :: unicode where
  "unicode_sample =
     \<lparr>upper_other = (\<lambda>c. if c = 305 then [73] else if c = 223 then [83, 83] else [c]),
      decimal_other = (\<lambda>c. if 1632 \<le> c \<and> c \<le> 1641 then Some (c - 1632) else None)\<rparr>"

definition memory_io :: "(string, string list) io" where
  "memory_io =
     \<lparr>unicode_tables = unicode_sample,
      urlopen = (\<lambda>uri. if endswith uri ''.gz'' then ''gzip:day,amount'' else ''day,amount''),
      gzip_open = drop 5,
      read_csv = (\<lambda>data encoding.
                    [takeWhile (\<lambda>c. c \<noteq> CHR '','') data,
                     drop 1 (dropWhile (\<lambda>c. c \<noteq> CHR '','') data)]),
      df_keys = (\<lambda>df. df),
      to_datetime = (\<lambda>df column_name.
                       map (\<lambda>k. if k = column_name then k @ '' (datetime)'' else k) df),
      SQLALCHEMY_DATABASE_URI = Some ''sqlite://''\<rparr>"

definition memory_importer :: "(bool, string, string list) importer" where
  "memory_importer =
     \<lparr>imp_json = simple_json,
      imp_io = memory_io,
      import_from_dict = import_from_dict_spec,
      has_table_by_name = (\<lambda>t. Some True),
      database_of = (\<lambda>t. \<lparr>db_id = database_id t, sqlalchemy_uri = ''sqlite://''\<rparr>)\<rparr>"

text \<open>No stored table loses a column or a metric from one state of the session to another.\<close>

definition keeps_children :: "sqla_table list \<Rightarrow> sqla_table list \<Rightarrow> bool" where
  "keeps_children ts ts' =
     (length ts \<le> length ts' \<and>
      list_all
        (\<lambda>j. set (map column_name (columns (ts ! j))) \<subseteq> set (map column_name (columns (ts' ! j))) \<and>
             set (map metric_name (metrics (ts ! j))) \<subseteq> set (map metric_name (metrics (ts' ! j))))
        [0..<length ts])"

definition sales_config :: "bool config" where
  "sales_config =
     \<lparr>cfg_uuid = Some ''b3a1'', cfg_id = None, cfg_database_id = 7, cfg_data = None,
      cfg_fields = [''table_name'' \<mapsto> FStr ''sales'', ''params'' \<mapsto> FJson True,
                    ''extra'' \<mapsto> FStr ''x''],
      cfg_metrics = Some [[''metric_name'' \<mapsto> FStr ''revenue'', ''extra'' \<mapsto> FJson False]],
      cfg_columns = Some [[''column_name'' \<mapsto> FStr ''amount'', ''type'' \<mapsto> FStr ''FLOAT'']]\<rparr>"

definition sales_synced :: sqla_table where
  "sales_synced =
     \<lparr>tbl_id = Some 1, uuid = ''b3a1'', table_name = ''sales'', schema = None,
      database_id = 7,
      columns = [\<lparr>column_name = ''amount'', column_type = ustr ''FLOAT'', column_extra = None\<rparr>],
      metrics = [\<lparr>metric_name = ''revenue'', metric_extra = Some ''false''\<rparr>],
      owners = [alice, bob]\<rparr>"

subsection \<open>The json module on nested values\<close>

text \<open>
  Python values as \<open>json.dumps\<close> takes them: a dictionary may be keyed by strings or
  by integers. \<open>json.dumps\<close> writes every key as a string, so \<open>json.loads\<close> gives
  dictionaries keyed by strings only. The texts are those of the default separators;
  in a string only the quote and the backslash are escaped (printable ASCII).
\<close>

datatype jkey = KStr string | KInt int

datatype pyjson =
    JNone
  | JBool bool
  | JInt int
  | JStr string
  | JList "pyjson list"
  | JDict "(jkey \<times> pyjson) list"

fun show_nat :: "nat \<Rightarrow> string" where
  "show_nat n =
     (if n < 10 then [''0123456789'' ! n]
      else show_nat (n div 10) @ [''0123456789'' ! (n mod 10)])"

definition show_int :: "int \<Rightarrow> string" where
  "show_int i = (if i < 0 then ''-'' @ show_nat (nat (- i)) else show_nat (nat i))"

definition quoted :: "string \<Rightarrow> string" where
  "quoted s =
     [CHR 0x22] @
     concat (map (\<lambda>c. if c = CHR 0x22 \<or> c = CHR 0x5C then [CHR 0x5C, c] else [c]) s) @
     [CHR 0x22]"

definition show_key :: "jkey \<Rightarrow> string" where
  "show_key k = (case k of KStr s \<Rightarrow> quoted s | KInt i \<Rightarrow> quoted (show_int i))"

fun dumps :: "pyjson \<Rightarrow> string"
  and dumps_elems :: "pyjson list \<Rightarrow> string"
  and dumps_items :: "(jkey \<times> pyjson) list \<Rightarrow> string" where
  "dumps JNone = ''null''"
| "dumps (JBool b) = (if b then ''true'' else ''false'')"
| "dumps (JInt i) = show_int i"
| "dumps (JStr s) = quoted s"
| "dumps (JList vs) = ''['' @ dumps_elems vs @ '']''"
| "dumps (JDict kvs) = ''{'' @ dumps_items kvs @ ''}''"
| "dumps_elems [] = []"
| "dumps_elems [v] = dumps v"
| "dumps_elems (v # w # vs) = dumps v @ '', '' @ dumps_elems (w # vs)"
| "dumps_items [] = []"
| "dumps_items [(k, v)] = show_key k @ '': '' @ dumps v"
| "dumps_items ((k, v) # kv # kvs) = show_key k @ '': '' @ dumps v @ '', '' @ dumps_items (kv # kvs)"

definition skip_ws :: "string \<Rightarrow> string" where
  "skip_ws s = dropWhile (\<lambda>c. c = CHR '' '') s"

fun parse_string :: "string \<Rightarrow> (string \<times> string) option" where
  "parse_string [] = None"
| "parse_string (c # r) =
     (if c = CHR 0x22 then Some ([], r)
      else if c = CHR 0x5C
      then (case r of
              [] \<Rightarrow> None
            | d # r' \<Rightarrow> map_option (\<lambda>(t, r''). (d # t, r'')) (parse_string r'))
      else map_option (\<lambda>(t, r''). (c # t, r'')) (parse_string r))"

definition ascii_digit :: "char \<Rightarrow> bool" where
  "ascii_digit c = (c \<in> set ''0123456789'')"

definition read_nat :: "string \<Rightarrow> nat" where
  "read_nat ds =
     foldl (\<lambda>n c. 10 * n + (case map_of (zip ''0123456789'' [0 ..< 10]) c of
                                 Some d \<Rightarrow> d
                               | None \<Rightarrow> 0)) 0 ds"

definition parse_int :: "string \<Rightarrow> (int \<times> string) option" where
  "parse_int s =
     (let (neg, r) = (if take 1 s = ''-'' then (True, drop 1 s) else (False, s));
          ds = takeWhile ascii_digit r
      in if ds = [] then None
         else Some ((if neg then - int (read_nat ds) else int (read_nat ds)),
                    dropWhile ascii_digit r))"

text \<open>
  The parser, with the number of nested steps it may take; \<open>loads\<close> gives it more than
  the text can need. A key read twice keeps its place and takes the later value.
\<close>

fun parse_value :: "nat \<Rightarrow> string \<Rightarrow> (pyjson \<times> string) option"
  and parse_elems :: "nat \<Rightarrow> string \<Rightarrow> (pyjson list \<times> string) option"
  and parse_items :: "nat \<Rightarrow> string \<Rightarrow> ((jkey \<times> pyjson) list \<times> string) option" where
  "parse_value 0 s = None"
| "parse_value (Suc n) s =
     (let t = skip_ws s
      in if take 4 t = ''null'' then Some (JNone, drop 4 t)
         else if take 4 t = ''true'' then Some (JBool True, drop 4 t)
         else if take 5 t = ''false'' then Some (JBool False, drop 5 t)
         else if take 1 t = [CHR 0x22]
         then map_option (\<lambda>(str, r). (JStr str, r)) (parse_string (drop 1 t))
         else if take 1 t = ''[''
         then (if take 1 (skip_ws (drop 1 t)) = '']''
               then Some (JList [], drop 1 (skip_ws (drop 1 t)))
               else map_option (\<lambda>(vs, r). (JList vs, r)) (parse_elems n (drop 1 t)))
         else if take 1 t = ''{''
         then (if take 1 (skip_ws (drop 1 t)) = ''}''
               then Some (JDict [], drop 1 (skip_ws (drop 1 t)))
               else map_option (\<lambda>(kvs, r). (JDict kvs, r)) (parse_items n (drop 1 t)))
         else map_option (\<lambda>(i, r). (JInt i, r)) (parse_int t))"
| "parse_elems 0 s = None"
| "parse_elems (Suc n) s =
     (case parse_value n s of
        None \<Rightarrow> None
      | Some (v, r) \<Rightarrow>
          (let t = skip_ws r
           in if take 1 t = '']'' then Some ([v], drop 1 t)
              else if take 1 t = '',''
              then map_option (\<lambda>(vs, r'). (v # vs, r')) (parse_elems n (drop 1 t))
              else None))"
| "parse_items 0 s = None"
| "parse_items (Suc n) s =
     (let t = skip_ws s
      in if take 1 t = [CHR 0x22]
         then (case parse_string (drop 1 t) of
                 None \<Rightarrow> None
               | Some (k, r) \<Rightarrow>
                   (let t1 = skip_ws r
                    in if take 1 t1 = '':''
                       then (case parse_value n (drop 1 t1) of
                               None \<Rightarrow> None
                             | Some (v, r1) \<Rightarrow>
                                 (let t2 = skip_ws r1
                                  in if take 1 t2 = ''}'' then Some ([(KStr k, v)], drop 1 t2)
                                     else if take 1 t2 = '',''
                                     then map_option
                                            (\<lambda>(kvs, r2).
                                               ((KStr k, (case map_of kvs (KStr k) of
                                                            Some v' \<Rightarrow> v'
                                                          | None \<Rightarrow> v)) #
                                                filter (\<lambda>kv. fst kv \<noteq> KStr k) kvs, r2))
                                            (parse_items n (drop 1 t2))
                                     else None))
                       else None))
         else None)"

definition loads :: "string \<Rightarrow> pyjson option" where
  "loads s =
     (case parse_value (Suc (length s)) s of
        None \<Rightarrow> None
      | Some (v, r) \<Rightarrow> if skip_ws r = [] then Some v else None)"

text \<open>
  The codec on the values of a payload. A payload holds \<open>None\<close> as \<open>FNone\<close> and a
  string as \<open>FStr\<close>, so that \<open>FJson\<close> carries the other values only: numbers, booleans,
  lists and dictionaries.
\<close>

definition to_pyjson :: "pyjson field \<Rightarrow> pyjson" where
  "to_pyjson v = (case v of FNone \<Rightarrow> JNone | FStr s \<Rightarrow> JStr s | FJson j \<Rightarrow> j)"

definition of_pyjson :: "pyjson \<Rightarrow> pyjson field" where
  "of_pyjson j = (case j of JNone \<Rightarrow> FNone | JStr s \<Rightarrow> FStr s | _ \<Rightarrow> FJson j)"

definition python_json :: "pyjson json" where
  "python_json =
     \<lparr>json_dumps = (\<lambda>v. Some (dumps (to_pyjson v))),
      json_loads = (\<lambda>s. map_option of_pyjson (loads s)),
      json_truthy =
        (\<lambda>j. case j of
                JNone \<Rightarrow> False
              | JBool b \<Rightarrow> b
              | JInt i \<Rightarrow> i \<noteq> 0
              | JStr s \<Rightarrow> s \<noteq> []
              | JList vs \<Rightarrow> vs \<noteq> []
              | JDict kvs \<Rightarrow> kvs \<noteq> [])\<rparr>"

text \<open>A payload whose \<open>params\<close> is a dictionary keyed by the integer 1.\<close>

definition keyed_config :: "pyjson config" where
  "keyed_config =
     \<lparr>cfg_uuid = Some ''b3a1'', cfg_id = None, cfg_database_id = 7, cfg_data = None,
      cfg_fields = [''table_name'' \<mapsto> FStr ''sales'',
                    ''params'' \<mapsto> FJson (JDict [(KInt 1, JStr ''a'')])],
      cfg_metrics = None,
      cfg_columns = None\<rparr>"

text \<open>A payload with a value under each of the three keys and under the extras.\<close>

definition nested_config :: "pyjson config" where
  "nested_config =
     \<lparr>cfg_uuid = Some ''b3a1'', cfg_id = None, cfg_database_id = 7, cfg_data = None,
      cfg_fields = [''table_name'' \<mapsto> FStr ''sales'',
                    ''params'' \<mapsto> FJson (JDict [(KStr ''limit'', JInt 10)]),
                    ''template_params'' \<mapsto> FJson (JList [JBool True, JNone]),
                    ''extra'' \<mapsto> FStr ''note''],
      cfg_metrics = Some [[''metric_name'' \<mapsto> FStr ''revenue'',
                           ''extra'' \<mapsto> FJson (JDict [(KStr ''unit'', JStr ''eur'')])]],
      cfg_columns = Some [[''column_name'' \<mapsto> FStr ''amount'', ''extra'' \<mapsto> FNone]]\<rparr>"

section \<open>Verification: the current-user REST API\<close>

text \<open>
  Claim C1, as amended. \<open>get_me\<close> and \<open>get_my_roles\<close> answer 401 to a request whose
  user is missing or anonymous (or whose read of the user raises
  \<open>NoAuthorizationError\<close>), and otherwise answer 200 with a body computed from the
  session's user alone. \<open>get_all\<close>, for an authenticated request, answers 200 with the
  serialisation of every user that \<open>get_all_users\<close> returns, not of the session's user.
\<close>

theorem users_api_current_user:
  "(unauthenticated g \<longrightarrow>
      get_me dump g = response_401 \<and> get_my_roles bootstrap_user_data g = response_401) \<and>
   (g = UserObj u \<and> \<not> is_anonymous u \<longrightarrow>
      get_me dump g = response 200 (Result (dump u)) \<and>
      get_my_roles bootstrap_user_data g = response 200 (Result (bootstrap_user_data u True)) \<and>
      get_all dump users g = response 200 (ResultList (map dump users)))"
  by (auto simp: unauthenticated_def get_me_def get_my_roles_def get_all_def split: g_user.splits)

theorem users_api_current_user_witness:
  "get_me username UserNone = response_401 \<and>
   get_my_roles (\<lambda>u perms. username u) UserNone = response_401 \<and>
   get_me username (UserObj \<lparr>user_id = 2, username = ''gamma'', is_anonymous = False\<rparr>) =
     response 200 (Result ''gamma'') \<and>
   get_all username
     [\<lparr>user_id = 1, username = ''admin'', is_anonymous = False\<rparr>,
      \<lparr>user_id = 2, username = ''gamma'', is_anonymous = False\<rparr>]
     (UserObj \<lparr>user_id = 2, username = ''gamma'', is_anonymous = False\<rparr>) =
     response 200 (ResultList [''admin'', ''gamma''])"
  using users_api_current_user
      [where g = UserNone and dump = username and bootstrap_user_data = "\<lambda>u perms. username u"]
    users_api_current_user
      [where g = "UserObj \<lparr>user_id = 2, username = ''gamma'', is_anonymous = False\<rparr>"
         and u = "\<lparr>user_id = 2, username = ''gamma'', is_anonymous = False\<rparr>"
         and dump = username and bootstrap_user_data = "\<lambda>u perms. username u"
         and users = "[\<lparr>user_id = 1, username = ''admin'', is_anonymous = False\<rparr>,
                       \<lparr>user_id = 2, username = ''gamma'', is_anonymous = False\<rparr>]"]
  by (simp add: unauthenticated_def)

text \<open>
  The claim as first stated fails on \<open>get_all\<close>: an authenticated user who is not
  the only user gets the data of the others too, and the body changes with the other
  users while the session's user stays the same.
\<close>

theorem users_api_counterexample:
  "\<not> unauthenticated (UserObj \<lparr>user_id = 2, username = ''gamma'', is_anonymous = False\<rparr>) \<and>
   get_all username
     [\<lparr>user_id = 1, username = ''admin'', is_anonymous = False\<rparr>,
      \<lparr>user_id = 2, username = ''gamma'', is_anonymous = False\<rparr>]
     (UserObj \<lparr>user_id = 2, username = ''gamma'', is_anonymous = False\<rparr>) =
     response 200 (ResultList [''admin'', ''gamma'']) \<and>
   get_all username
     [\<lparr>user_id = 2, username = ''gamma'', is_anonymous = False\<rparr>]
     (UserObj \<lparr>user_id = 2, username = ''gamma'', is_anonymous = False\<rparr>) =
     response 200 (ResultList [''gamma''])"
  by (simp add: unauthenticated_def get_all_def)

section \<open>Verification: native types\<close>

lemma type_map_key_no_paren: "map_of type_map k = Some t \<Longrightarrow> 40 \<notin> set k"
  by (auto simp: type_map_def ustr_def split: if_splits)

lemma upper_keeps_paren: "40 \<in> set s \<Longrightarrow> 40 \<in> set (upper U s)"
  by (auto simp: upper_def ascii_upper_def intro!: bexI [of _ 40])

lemma ascii_upper_paren: "ascii_upper c = 40 \<Longrightarrow> c = 40"
  by (simp add: ascii_upper_def split: if_splits)

lemma VARCHAR_prefix_paren:
  assumes "map ascii_upper p = ustr ''VARCHAR(''"
  shows "40 \<in> set p"
proof -
  have "40 \<in> set (ustr ''VARCHAR('')" by (simp add: ustr_def)
  with assms have "40 \<in> ascii_upper ` set p" by (simp flip: set_map)
  then show ?thesis by (auto dest: ascii_upper_paren [OF sym])
qed

lemma VARCHAR_match_not_key:
  assumes "VARCHAR_match U s = Some ds"
  shows "map_of type_map (upper U s) = None"
proof (cases "map_of type_map (upper U s)")
  case None
  then show ?thesis .
next
  case (Some t)
  from assms have "map ascii_upper (take 8 s) = ustr ''VARCHAR(''"
    by (simp add: VARCHAR_match_def split: if_splits)
  then have "40 \<in> set (take 8 s)" by (rule VARCHAR_prefix_paren)
  then have "40 \<in> set s" by (rule in_set_takeD)
  then have "40 \<in> set (upper U s)" by (rule upper_keeps_paren)
  with type_map_key_no_paren [OF Some] show ?thesis by simp
qed

lemma not_digit_paren: "\<not> is_digit U 41"
  by (simp add: is_digit_def decimal_def)

lemma VARCHAR_match_prefix:
  assumes "map ascii_upper p = ustr ''VARCHAR(''" and "ds \<noteq> []" and "list_all (is_digit U) ds"
  shows "VARCHAR_match U (p @ ds @ ustr '')'' @ rest) = Some ds"
proof -
  from assms(1) have "length (map ascii_upper p) = 8" by (simp add: ustr_def)
  then have len: "length p = 8" by simp
  have d: "\<forall>x\<in>set ds. is_digit U x" using assms(3) by (simp add: list_all_iff)
  have tw: "takeWhile (is_digit U) (ds @ 41 # rest) = ds"
    using d not_digit_paren by (simp add: takeWhile_append2)
  have dw: "dropWhile (is_digit U) (ds @ 41 # rest) = 41 # rest"
    using d not_digit_paren by (simp add: dropWhile_append2)
  have p: "ustr '')'' = [41]" by (simp add: ustr_def)
  show ?thesis
    using len assms(1,2) tw dw by (simp add: VARCHAR_match_def p)
qed

lemma VARCHAR_match_shape:
  assumes "VARCHAR_match U s = Some ds"
  shows "\<exists>p rest. s = p @ ds @ ustr '')'' @ rest \<and> map ascii_upper p = ustr ''VARCHAR('' \<and>
           ds \<noteq> [] \<and> list_all (is_digit U) ds"
proof -
  let ?r = "dropWhile (is_digit U) (drop 8 s)"
  from assms have u: "map ascii_upper (take 8 s) = ustr ''VARCHAR(''"
    and ds: "ds = takeWhile (is_digit U) (drop 8 s)" and ne: "ds \<noteq> []"
    and r: "take 1 ?r = ustr '')''"
    by (auto simp: VARCHAR_match_def Let_def split: if_splits)
  from r have r': "?r = ustr '')'' @ tl ?r" by (cases ?r) (auto simp: ustr_def)
  have "s = take 8 s @ drop 8 s" by simp
  also have "drop 8 s = ds @ ?r" using ds by simp
  finally have "s = take 8 s @ ds @ ?r" .
  with r' have "s = take 8 s @ ds @ ustr '')'' @ tl ?r" by simp
  moreover have "list_all (is_digit U) ds"
    unfolding ds list_all_iff by (auto dest: set_takeWhileD)
  ultimately show ?thesis using u ne by blast
qed

text \<open>
  Claim C6, as amended. Strings are sequences of Unicode code points, and the upper
  case and the decimal digits are those of Unicode. A string whose upper-case form is a
  key of \<open>type_map\<close> gives the mapped type. A string that starts with \<open>VARCHAR(\<close> in
  any letter case, then a non-empty run of decimal digits and a closing parenthesis,
  gives \<open>String\<close> of that length when the run has at most 4300 digits, and raises
  \<open>ValueError\<close> when it has more, whatever follows the parenthesis. Every other string
  raises the unknown-type exception.
\<close>

theorem get_sqla_type_cases:
  "(map_of type_map (upper U s) = Some t \<longrightarrow> get_sqla_type U s = Inr t) \<and>
   (map ascii_upper p = ustr ''VARCHAR('' \<and> ds \<noteq> [] \<and> list_all (is_digit U) ds \<and>
    length ds \<le> 4300 \<longrightarrow>
      get_sqla_type U (p @ ds @ ustr '')'' @ rest) = Inr (String (int_of_digits U ds))) \<and>
   (map ascii_upper p' = ustr ''VARCHAR('' \<and> list_all (is_digit U) ds' \<and>
    length ds' > 4300 \<longrightarrow>
      (\<exists>msg. get_sqla_type U (p' @ ds' @ ustr '')'' @ rest') = Inl (ValueError msg))) \<and>
   (map_of type_map (upper U s') = None \<and>
    (\<forall>p ds rest. s' = p @ ds @ ustr '')'' @ rest \<longrightarrow> map ascii_upper p = ustr ''VARCHAR('' \<longrightarrow>
       ds \<noteq> [] \<longrightarrow> \<not> list_all (is_digit U) ds) \<longrightarrow>
      get_sqla_type U s' = Inl (Exception (ustr ''Unknown type: '' @ s')))"
proof (intro conjI impI)
  assume "map_of type_map (upper U s) = Some t"
  then show "get_sqla_type U s = Inr t" by (simp add: get_sqla_type_def)
next
  assume a: "map ascii_upper p = ustr ''VARCHAR('' \<and> ds \<noteq> [] \<and> list_all (is_digit U) ds \<and>
    length ds \<le> 4300"
  then have a1: "map ascii_upper p = ustr ''VARCHAR(''" and a2: "ds \<noteq> []"
    and a3: "list_all (is_digit U) ds" and a4: "length ds \<le> 4300"
    by simp_all
  have m: "VARCHAR_match U (p @ ds @ ustr '')'' @ rest) = Some ds"
    by (rule VARCHAR_match_prefix [OF a1 a2 a3])
  from a4 have i: "py_int U ds = Inr (int_of_digits U ds)"
    by (simp add: py_int_def int_max_str_digits_def)
  from VARCHAR_match_not_key [OF m] m i
  show "get_sqla_type U (p @ ds @ ustr '')'' @ rest) = Inr (String (int_of_digits U ds))"
    by (simp add: get_sqla_type_def)
next
  assume a: "map ascii_upper p' = ustr ''VARCHAR('' \<and> list_all (is_digit U) ds' \<and>
    length ds' > 4300"
  then have a1: "map ascii_upper p' = ustr ''VARCHAR(''" and a2: "ds' \<noteq> []"
    and a3: "list_all (is_digit U) ds'" and a4: "length ds' > 4300"
    by auto
  have m: "VARCHAR_match U (p' @ ds' @ ustr '')'' @ rest') = Some ds'"
    by (rule VARCHAR_match_prefix [OF a1 a2 a3])
  from a4 have i: "\<exists>msg. py_int U ds' = Inl (ValueError msg)"
    by (simp add: py_int_def int_max_str_digits_def)
  from VARCHAR_match_not_key [OF m] m i
  show "\<exists>msg. get_sqla_type U (p' @ ds' @ ustr '')'' @ rest') = Inl (ValueError msg)"
    by (auto simp: get_sqla_type_def)
next
  assume a: "map_of type_map (upper U s') = None \<and>
    (\<forall>p ds rest. s' = p @ ds @ ustr '')'' @ rest \<longrightarrow> map ascii_upper p = ustr ''VARCHAR('' \<longrightarrow>
       ds \<noteq> [] \<longrightarrow> \<not> list_all (is_digit U) ds)"
  have "VARCHAR_match U s' = None"
  proof (cases "VARCHAR_match U s'")
    case None
    then show ?thesis .
  next
    case (Some ds)
    from VARCHAR_match_shape [OF Some] a show ?thesis by blast
  qed
  with a show "get_sqla_type U s' = Inl (Exception (ustr ''Unknown type: '' @ s'))"
    by (simp add: get_sqla_type_def)
qed

theorem get_sqla_type_cases_witness:
  "get_sqla_type unicode_sample (ustr ''text'') = Inr Text \<and>
   get_sqla_type unicode_sample (ustr ''b'' @ [305] @ ustr ''g'' @ [305] @ ustr ''nt'')
     = Inr BigInteger \<and>
   get_sqla_type unicode_sample (ustr ''varchar('' @ [1633, 50] @ ustr '')'' @ ustr '' NOT NULL'')
     = Inr (String 12) \<and>
   (\<exists>msg. get_sqla_type unicode_sample
            (ustr ''VARCHAR('' @ replicate 4301 48 @ ustr '')'' @ []) = Inl (ValueError msg)) \<and>
   get_sqla_type unicode_sample (ustr ''INT'') = Inl (Exception (ustr ''Unknown type: INT''))"
proof -
  have h1: "map_of type_map (upper unicode_sample (ustr ''text'')) = Some Text"
    by (simp add: type_map_def upper_def ascii_upper_def ustr_def)
  have h1': "map_of type_map
      (upper unicode_sample (ustr ''b'' @ [305] @ ustr ''g'' @ [305] @ ustr ''nt'')) = Some BigInteger"
    by (simp add: type_map_def upper_def ascii_upper_def ustr_def unicode_sample_def)
  have h2: "map ascii_upper (ustr ''varchar('') = ustr ''VARCHAR('' \<and> [1633, 50] \<noteq> [] \<and>
      list_all (is_digit unicode_sample) [1633, 50] \<and> length [1633, 50 :: nat] \<le> 4300"
    by (simp add: ascii_upper_def ustr_def is_digit_def decimal_def unicode_sample_def)
  have h2': "map ascii_upper (ustr ''VARCHAR('') = ustr ''VARCHAR('' \<and>
      list_all (is_digit unicode_sample) (replicate 4301 48) \<and> length (replicate 4301 (48 :: nat)) > 4300"
    by (simp add: ascii_upper_def ustr_def is_digit_def decimal_def list_all_iff)
  have h3: "map_of type_map (upper unicode_sample (ustr ''INT'')) = None"
    by (simp add: type_map_def upper_def ascii_upper_def ustr_def)
  have h4: "\<forall>p ds rest. ustr ''INT'' = p @ ds @ ustr '')'' @ rest \<longrightarrow>
      map ascii_upper p = ustr ''VARCHAR('' \<longrightarrow> ds \<noteq> [] \<longrightarrow>
      \<not> list_all (is_digit unicode_sample) ds"
  proof (intro allI impI)
    fix p ds rest :: "nat list"
    assume e: "ustr ''INT'' = p @ ds @ ustr '')'' @ rest"
    have "41 \<in> set (p @ ds @ ustr '')'' @ rest)" by (simp add: ustr_def)
    then have "41 \<in> set (ustr ''INT'')" using e by metis
    then show "\<not> list_all (is_digit unicode_sample) ds" by (simp add: ustr_def)
  qed
  have n: "int_of_digits unicode_sample [1633, 50] = 12"
    by (simp add: int_of_digits_def digit_val_def decimal_def unicode_sample_def)
  have c1: "get_sqla_type unicode_sample (ustr ''text'') = Inr Text"
    by (rule get_sqla_type_cases [THEN conjunct1, THEN mp, OF h1])
  have c1': "get_sqla_type unicode_sample (ustr ''b'' @ [305] @ ustr ''g'' @ [305] @ ustr ''nt'')
      = Inr BigInteger"
    by (rule get_sqla_type_cases [THEN conjunct1, THEN mp, OF h1'])
  have c2: "get_sqla_type unicode_sample
      (ustr ''varchar('' @ [1633, 50] @ ustr '')'' @ ustr '' NOT NULL'')
      = Inr (String (int_of_digits unicode_sample [1633, 50]))"
    by (rule get_sqla_type_cases [THEN conjunct2, THEN conjunct1, THEN mp, OF h2])
  have c3: "\<exists>msg. get_sqla_type unicode_sample
      (ustr ''VARCHAR('' @ replicate 4301 48 @ ustr '')'' @ []) = Inl (ValueError msg)"
    by (rule get_sqla_type_cases [THEN conjunct2, THEN conjunct2, THEN conjunct1, THEN mp, OF h2'])
  have c4: "get_sqla_type unicode_sample (ustr ''INT'')
      = Inl (Exception (ustr ''Unknown type: '' @ ustr ''INT''))"
    by (rule get_sqla_type_cases [THEN conjunct2, THEN conjunct2, THEN conjunct2, THEN mp,
          OF conjI [OF h3 h4]])
  have e: "ustr ''Unknown type: '' @ ustr ''INT'' = ustr ''Unknown type: INT''"
    by (simp add: ustr_def)
  from c1 c1' c2 c3 c4 show ?thesis unfolding n e by (intro conjI)
qed

text \<open>
  The claim as first stated fails: a string that is neither a key nor of the form
  VARCHAR(n) does not raise when it merely starts with VARCHAR(n).
\<close>

theorem get_sqla_type_counterexample:
  "map_of type_map (upper unicode_sample (ustr ''VARCHAR(10) NOT NULL'')) = None \<and>
   \<not> varchar_form (ustr ''VARCHAR(10) NOT NULL'') \<and>
   get_sqla_type unicode_sample (ustr ''VARCHAR(10) NOT NULL'') = Inr (String 10)"
  by (simp add: get_sqla_type_def type_map_def upper_def ascii_upper_def ustr_def
      VARCHAR_match_def is_digit_def decimal_def py_int_def int_max_str_digits_def
      int_of_digits_def digit_val_def varchar_form_def)

section \<open>Verification: the delete and update commands\<close>

text \<open>
  Claim C3. \<open>DeleteDatamanageCommand.run\<close> raises the not-found error when no dataset
  has the given id and the forbidden error when the ownership check fails, both
  without touching the session. When the mapper's delete (or the commit that follows
  it) raises \<open>SQLAlchemyError\<close> or \<open>DAODeleteFailedError\<close>, it rolls the session back
  and raises the delete-failed error: the stored state is unchanged and the session
  is back at it. Otherwise it commits and returns the model that the mapper's delete
  returned.
\<close>

theorem delete_run_outcomes:
  "(find_by_id e (session d) model_id = None \<longrightarrow>
      delete_run e g d model_id = (Inl DatamanageNotFoundError, d)) \<and>
   (find_by_id e (session d) model_id = Some m \<and>
    raise_for_ownership e g m = Some SupersetSecurityException \<longrightarrow>
      delete_run e g d model_id = (Inl DatamanageForbiddenError, d)) \<and>
   (find_by_id e (session d) model_id = Some m \<and> raise_for_ownership e g m = None \<and>
    dao_delete e m (session d) = (Inl ex, s') \<and>
    (ex = SQLAlchemyError \<or> ex = DAODeleteFailedError) \<longrightarrow>
      delete_run e g d model_id =
        (Inl DatamanageDeleteFailedError, \<lparr>committed = committed d, session = committed d\<rparr>)) \<and>
   (find_by_id e (session d) model_id = Some m \<and> raise_for_ownership e g m = None \<and>
    dao_delete e m (session d) = (Inr datamanage, s') \<and>
    session_commit e s' = Some SQLAlchemyError \<longrightarrow>
      delete_run e g d model_id =
        (Inl DatamanageDeleteFailedError, \<lparr>committed = committed d, session = committed d\<rparr>)) \<and>
   (find_by_id e (session d) model_id = Some m \<and> raise_for_ownership e g m = None \<and>
    dao_delete e m (session d) = (Inr datamanage, s') \<and> session_commit e s' = None \<longrightarrow>
      delete_run e g d model_id = (Inr datamanage, \<lparr>committed = s', session = s'\<rparr>))"
  by (auto simp: delete_run_def delete_validate_def delete_handler_def rollback_def commit_def)

theorem delete_run_outcomes_witness:
  "delete_run (memory_env False) (UserObj alice) \<lparr>committed = [sales], session = [sales]\<rparr> 2 =
     (Inl DatamanageNotFoundError, \<lparr>committed = [sales], session = [sales]\<rparr>) \<and>
   delete_run (memory_env False) (UserObj bob) \<lparr>committed = [sales], session = [sales]\<rparr> 1 =
     (Inl DatamanageForbiddenError, \<lparr>committed = [sales], session = [sales]\<rparr>) \<and>
   delete_run (memory_env True) (UserObj alice) \<lparr>committed = [sales], session = [sales]\<rparr> 1 =
     (Inl DatamanageDeleteFailedError, \<lparr>committed = [sales], session = [sales]\<rparr>) \<and>
   delete_run (memory_env False) (UserObj alice) \<lparr>committed = [sales], session = [sales]\<rparr> 1 =
     (Inr sales, \<lparr>committed = [], session = []\<rparr>)"
  using
    delete_run_outcomes [where e = "memory_env False" and g = "UserObj alice"
      and d = "\<lparr>committed = [sales], session = [sales]\<rparr>" and model_id = 2]
    delete_run_outcomes [where e = "memory_env False" and g = "UserObj bob"
      and d = "\<lparr>committed = [sales], session = [sales]\<rparr>" and model_id = 1 and m = sales]
    delete_run_outcomes [where e = "memory_env True" and g = "UserObj alice"
      and d = "\<lparr>committed = [sales], session = [sales]\<rparr>" and model_id = 1 and m = sales
      and ex = DAODeleteFailedError and s' = "[sales]"]
    delete_run_outcomes [where e = "memory_env False" and g = "UserObj alice"
      and d = "\<lparr>committed = [sales], session = [sales]\<rparr>" and model_id = 1 and m = sales
      and datamanage = sales and s' = "[]"]
  by (simp add: memory_env_def sales_def alice_def bob_def)

lemma export_validate_forbidden:
  assumes "\<forall>i\<in>set model_ids. \<exists>m. find_by_id e s i = Some m \<and>
             (raise_for_ownership e g m = None \<or>
              raise_for_ownership e g m = Some SupersetSecurityException)"
    and "\<exists>i\<in>set model_ids. \<exists>m. find_by_id e s i = Some m \<and>
             raise_for_ownership e g m = Some SupersetSecurityException"
  shows "export_validate e g s model_ids = Inl DatamanageForbiddenError"
  using assms
proof (induction model_ids)
  case Nil
  then show ?case by simp
next
  case (Cons i ids)
  from Cons.prems(1) obtain m where m: "find_by_id e s i = Some m"
    and o: "raise_for_ownership e g m = None \<or>
            raise_for_ownership e g m = Some SupersetSecurityException"
    by auto
  show ?case
  proof (cases "raise_for_ownership e g m")
    case (Some ex)
    with o m show ?thesis by simp
  next
    case None
    with m Cons.prems(2) have "\<exists>i\<in>set ids. \<exists>m. find_by_id e s i = Some m \<and>
        raise_for_ownership e g m = Some SupersetSecurityException"
      by auto
    moreover from Cons.prems(1) have "\<forall>i\<in>set ids. \<exists>m. find_by_id e s i = Some m \<and>
        (raise_for_ownership e g m = None \<or>
         raise_for_ownership e g m = Some SupersetSecurityException)"
      by simp
    ultimately have "export_validate e g s ids = Inl DatamanageForbiddenError"
      by (rule Cons.IH [rotated])
    with m None show ?thesis by simp
  qed
qed

text \<open>
  Claim C2. Each command checks the ownership before it acts. For the id of an
  existing dataset and a requester whom the ownership check rejects, the \<open>run\<close> of the
  delete command and of the update command raises the forbidden error, and the
  session and the stored state are unchanged. The same holds of the export command, as
  the specification describes it, for every list of ids of existing datasets of which
  the requester does not own one: the forbidden error is raised, no file is produced
  and the state is unchanged.
\<close>

theorem ownership_checked_before_acting:
  "(find_by_id e (session d) model_id = Some m \<and>
    raise_for_ownership e g m = Some SupersetSecurityException \<longrightarrow>
      delete_run e g d model_id = (Inl DatamanageForbiddenError, d) \<and>
      update_run e g d (UpdateDatamanageCommand model_id data override_columns) =
        (Inl DatamanageForbiddenError, d) \<and>
      export_run e g d export_model [model_id] export_related =
        (Inl DatamanageForbiddenError, d)) \<and>
   ((\<forall>i\<in>set model_ids. \<exists>m. find_by_id e (session d) i = Some m \<and>
        (raise_for_ownership e g m = None \<or>
         raise_for_ownership e g m = Some SupersetSecurityException)) \<and>
    (\<exists>i\<in>set model_ids. \<exists>m. find_by_id e (session d) i = Some m \<and>
        raise_for_ownership e g m = Some SupersetSecurityException) \<longrightarrow>
      export_run e g d export_model model_ids export_related =
        (Inl DatamanageForbiddenError, d))"
proof (intro conjI impI)
  assume h: "find_by_id e (session d) model_id = Some m \<and>
    raise_for_ownership e g m = Some SupersetSecurityException"
  then show "delete_run e g d model_id = (Inl DatamanageForbiddenError, d)"
    by (simp add: delete_run_def delete_validate_def)
  from h show "update_run e g d (UpdateDatamanageCommand model_id data override_columns) =
      (Inl DatamanageForbiddenError, d)"
    by (simp add: update_run_def update_validate_def UpdateDatamanageCommand_def)
  from h show "export_run e g d export_model [model_id] export_related =
      (Inl DatamanageForbiddenError, d)"
    by (simp add: export_run_def)
next
  assume h: "(\<forall>i\<in>set model_ids. \<exists>m. find_by_id e (session d) i = Some m \<and>
        (raise_for_ownership e g m = None \<or>
         raise_for_ownership e g m = Some SupersetSecurityException)) \<and>
    (\<exists>i\<in>set model_ids. \<exists>m. find_by_id e (session d) i = Some m \<and>
        raise_for_ownership e g m = Some SupersetSecurityException)"
  then have "export_validate e g (session d) model_ids = Inl DatamanageForbiddenError"
    by (intro export_validate_forbidden) simp_all
  then show "export_run e g d export_model model_ids export_related =
      (Inl DatamanageForbiddenError, d)"
    by (simp add: export_run_def)
qed

theorem ownership_checked_before_acting_witness:
  "delete_run (memory_env False) (UserObj bob) \<lparr>committed = [sales], session = [sales]\<rparr> 1 =
     (Inl DatamanageForbiddenError, \<lparr>committed = [sales], session = [sales]\<rparr>) \<and>
   update_run (memory_env False) (UserObj bob) \<lparr>committed = [sales], session = [sales]\<rparr>
       (UpdateDatamanageCommand 1 (no_properties\<lparr>p_table_name := Some ''orders''\<rparr>) False) =
     (Inl DatamanageForbiddenError, \<lparr>committed = [sales], session = [sales]\<rparr>) \<and>
   export_run (memory_env False) (UserObj bob) \<lparr>committed = [sales], session = [sales]\<rparr>
       (\<lambda>model export_related. [table_name model]) [1] True =
     (Inl DatamanageForbiddenError, \<lparr>committed = [sales], session = [sales]\<rparr>) \<and>
   export_run (memory_env False) (UserObj bob)
       \<lparr>committed = [sales\<lparr>owners := [bob], tbl_id := Some 2\<rparr>, sales],
        session = [sales\<lparr>owners := [bob], tbl_id := Some 2\<rparr>, sales]\<rparr>
       (\<lambda>model export_related. [table_name model]) [2, 1] True =
     (Inl DatamanageForbiddenError,
      \<lparr>committed = [sales\<lparr>owners := [bob], tbl_id := Some 2\<rparr>, sales],
       session = [sales\<lparr>owners := [bob], tbl_id := Some 2\<rparr>, sales]\<rparr>) \<and>
   export_run (memory_env False) (UserObj alice) \<lparr>committed = [sales], session = [sales]\<rparr>
       (\<lambda>model export_related. [table_name model]) [1] True =
     (Inr [''sales''], \<lparr>committed = [sales], session = [sales]\<rparr>)"
proof -
  let ?d = "\<lparr>committed = [sales], session = [sales]\<rparr>"
  let ?own = "sales\<lparr>owners := [bob], tbl_id := Some 2\<rparr>"
  let ?d2 = "\<lparr>committed = [?own, sales], session = [?own, sales]\<rparr>"
  have h1: "find_by_id (memory_env False) (session ?d) 1 = Some sales \<and>
      raise_for_ownership (memory_env False) (UserObj bob) sales = Some SupersetSecurityException"
    by (simp add: memory_env_def sales_def alice_def bob_def)
  note t1 = ownership_checked_before_acting [where e = "memory_env False" and g = "UserObj bob"
      and d = ?d and model_id = 1 and m = sales
      and data = "no_properties\<lparr>p_table_name := Some ''orders''\<rparr>"
      and override_columns = False
      and export_model = "\<lambda>model export_related. [table_name model]"
      and export_related = True, THEN conjunct1, THEN mp, OF h1]
  have h2: "(\<forall>i\<in>set [2, 1]. \<exists>m. find_by_id (memory_env False) (session ?d2) i = Some m \<and>
        (raise_for_ownership (memory_env False) (UserObj bob) m = None \<or>
         raise_for_ownership (memory_env False) (UserObj bob) m = Some SupersetSecurityException)) \<and>
    (\<exists>i\<in>set [2, 1]. \<exists>m. find_by_id (memory_env False) (session ?d2) i = Some m \<and>
        raise_for_ownership (memory_env False) (UserObj bob) m = Some SupersetSecurityException)"
    by (simp add: memory_env_def sales_def alice_def bob_def)
  have t2: "export_run (memory_env False) (UserObj bob) ?d2
       (\<lambda>model export_related. [table_name model]) [2, 1] True =
     (Inl DatamanageForbiddenError, ?d2)"
    by (rule ownership_checked_before_acting [THEN conjunct2, THEN mp, OF h2])
  have r: "export_run (memory_env False) (UserObj alice) ?d
       (\<lambda>model export_related. [table_name model]) [1] True = (Inr [''sales''], ?d)"
    by (simp add: export_run_def memory_env_def sales_def alice_def)
  from t1 t2 r show ?thesis by simp
qed

section \<open>Verification: the field mapping of export and import\<close>

lemma encode_key_alt: "encode_key js k c = c(k := encoded_value js (c k))"
  by (auto simp: encode_key_def encoded_value_def fun_eq_iff split: option.splits field.splits)

lemma decode_key_alt:
  "decode_key js k p = (case decoded_value js (p k) of Inl ex \<Rightarrow> Inl ex | Inr w \<Rightarrow> Inr (p(k := w)))"
  by (auto simp: decode_key_def decoded_value_def fun_eq_iff split: option.splits field.splits)

lemma encoded_fields:
  "distinct keys \<Longrightarrow>
   foldl (\<lambda>c key. encode_key js key c) c keys k =
     (if k \<in> set keys then encoded_value js (c k) else c k)"
  by (induction keys arbitrary: c) (auto simp: encode_key_alt)

lemma decoded_fields:
  "decode_keys js keys p = Inr p' \<Longrightarrow> distinct keys \<Longrightarrow>
   (k \<in> set keys \<longrightarrow> decoded_value js (p k) = Inr (p' k)) \<and> (k \<notin> set keys \<longrightarrow> p' k = p k)"
proof (induction keys arbitrary: p)
  case Nil
  then show ?case by simp
next
  case (Cons x xs)
  from Cons.prems obtain w where w: "decoded_value js (p x) = Inr w"
    and r: "decode_keys js xs (p(x := w)) = Inr p'"
    by (auto simp: decode_key_alt split: sum.splits)
  from Cons.IH [OF r] Cons.prems(2)
  have ih: "(k \<in> set xs \<longrightarrow> decoded_value js ((p(x := w)) k) = Inr (p' k)) \<and>
            (k \<notin> set xs \<longrightarrow> p' k = (p(x := w)) k)" by simp
  show ?case using ih w Cons.prems(2) by (cases "k = x") auto
qed

lemma decode_keys_to:
  "distinct keys \<Longrightarrow> \<forall>k. k \<notin> set keys \<longrightarrow> p k = c k \<Longrightarrow>
   \<forall>k\<in>set keys. decoded_value js (p k) = Inr (c k) \<Longrightarrow> decode_keys js keys p = Inr c"
proof (induction keys arbitrary: p)
  case Nil
  then have "p = c" by (simp add: fun_eq_iff)
  then show ?case by simp
next
  case (Cons x xs)
  have d: "decode_key js x p = Inr (p(x := c x))"
    using Cons.prems(3) by (simp add: decode_key_alt)
  have "decode_keys js xs (p(x := c x)) = Inr c"
    using Cons.prems by (intro Cons.IH) auto
  with d show ?case by simp
qed

lemma roundtrip_value:
  "(case w of None \<Rightarrow> True | Some v \<Rightarrow> roundtrips js v) \<Longrightarrow>
   decoded_value js (encoded_value js w) = Inr w"
  by (auto simp: decoded_value_def encoded_value_def roundtrips_def field_truthy_def
      split: option.splits field.splits)

lemma JSON_KEYS_distinct: "distinct JSON_KEYS"
  by (simp add: JSON_KEYS_def)

lemma roundtrip_attributes:
  "key_roundtrips js ''extra'' a \<Longrightarrow> decode_key js ''extra'' (encode_attributes js a) = Inr a"
  by (auto simp: decode_key_def encode_attributes_def key_roundtrips_def roundtrips_def
      field_truthy_def fun_eq_iff split: option.splits field.splits)

lemma roundtrip_children_list:
  "list_all (key_roundtrips js ''extra'') l \<Longrightarrow>
   decode_attributes js (map (encode_attributes js) l) = Inr l"
  by (induction l) (auto simp: roundtrip_attributes)

lemma roundtrip_children:
  "list_all (key_roundtrips js ''extra'') (case c of None \<Rightarrow> [] | Some l \<Rightarrow> l) \<Longrightarrow>
   decode_children js (map_option (map (encode_attributes js)) c) = Inr c"
  by (cases c) (auto simp: decode_children_def roundtrip_children_list)

lemma JSON_KEYS_set: "set JSON_KEYS = {''params'', ''template_params'', ''extra''}"
  by (simp add: JSON_KEYS_def)

lemma roundtrip_fields:
  assumes "list_all (\<lambda>key. key_roundtrips js key c) [''params'', ''template_params'', ''extra'']"
  shows "decode_keys js JSON_KEYS (foldl (\<lambda>c key. encode_key js key c) c JSON_KEYS) = Inr c"
proof (rule decode_keys_to [OF JSON_KEYS_distinct])
  show "\<forall>k. k \<notin> set JSON_KEYS \<longrightarrow> foldl (\<lambda>c key. encode_key js key c) c JSON_KEYS k = c k"
    by (simp add: encoded_fields [OF JSON_KEYS_distinct])
  show "\<forall>k\<in>set JSON_KEYS.
          decoded_value js (foldl (\<lambda>c key. encode_key js key c) c JSON_KEYS k) = Inr (c k)"
  proof
    fix k assume k: "k \<in> set JSON_KEYS"
    with assms have "key_roundtrips js k c" by (auto simp: JSON_KEYS_def)
    then have "decoded_value js (encoded_value js (c k)) = Inr (c k)"
      by (intro roundtrip_value) (simp add: key_roundtrips_def)
    with k show "decoded_value js (foldl (\<lambda>c key. encode_key js key c) c JSON_KEYS k) = Inr (c k)"
      by (simp add: encoded_fields [OF JSON_KEYS_distinct])
  qed
qed

lemma export_decode_parts:
  assumes "export_decode js stored = Inr payload"
  shows "decode_keys js JSON_KEYS (cfg_fields stored) = Inr (cfg_fields payload) \<and>
         decode_children js (cfg_metrics stored) = Inr (cfg_metrics payload) \<and>
         decode_children js (cfg_columns stored) = Inr (cfg_columns payload)"
  using assms by (auto simp: export_decode_def split: sum.splits)

lemma decode_children_Some:
  "decode_children js (Some l) = Inr c \<Longrightarrow> \<exists>l'. c = Some l' \<and> decode_attributes js l = Inr l'"
  by (auto simp: decode_children_def split: sum.splits)

text \<open>
  Claim C5, as amended. The importer replaces the value under \<open>params\<close>,
  \<open>template_params\<close> and \<open>extra\<close>, and under the \<open>extra\<close> of each metric and column, by
  its JSON text, and leaves every other key alone; the exporter replaces a non-empty
  JSON text under the same keys by the value it decodes to, and leaves every other key
  alone; and exporting what the importer stored gives back the original payload
  whenever each value under these keys is \<open>None\<close> or a value that \<open>json.loads\<close> gives
  back from its \<open>json.dumps\<close> text.
\<close>

theorem export_import_roundtrip:
  "(key \<in> {''params'', ''template_params'', ''extra''} \<and> cfg_fields cfg key = Some v \<and>
    v \<noteq> FNone \<and> json_dumps js v = Some s \<longrightarrow>
      cfg_fields (import_encode js cfg) key = Some (FStr s)) \<and>
   (other \<notin> {''params'', ''template_params'', ''extra''} \<longrightarrow>
      cfg_fields (import_encode js cfg) other = cfg_fields cfg other) \<and>
   (cfg_metrics (import_encode js cfg) = map_option (map (encode_attributes js)) (cfg_metrics cfg) \<and>
    cfg_columns (import_encode js cfg) = map_option (map (encode_attributes js)) (cfg_columns cfg)) \<and>
   (a ''extra'' = Some v \<and> v \<noteq> FNone \<and> json_dumps js v = Some s \<longrightarrow>
      encode_attributes js a ''extra'' = Some (FStr s)) \<and>
   (export_decode js stored = Inr payload \<and>
    key \<in> {''params'', ''template_params'', ''extra''} \<and>
    cfg_fields stored key = Some (FStr s') \<and> s' \<noteq> [] \<and> json_loads js s' = Some v' \<longrightarrow>
      cfg_fields payload key = Some v') \<and>
   (export_decode js stored = Inr payload \<and>
    other \<notin> {''params'', ''template_params'', ''extra''} \<longrightarrow>
      cfg_fields payload other = cfg_fields stored other) \<and>
   (export_decode js stored = Inr payload \<and> cfg_metrics stored = Some ms \<and>
    cfg_columns stored = Some cs \<longrightarrow>
      (\<exists>ms' cs'. cfg_metrics payload = Some ms' \<and> decode_attributes js ms = Inr ms' \<and>
         cfg_columns payload = Some cs' \<and> decode_attributes js cs = Inr cs')) \<and>
   (s' \<noteq> [] \<and> a ''extra'' = Some (FStr s') \<and> json_loads js s' = Some v' \<longrightarrow>
      decode_key js ''extra'' a = Inr (a(''extra'' \<mapsto> v'))) \<and>
   (config_roundtrips js cfg \<longrightarrow> export_decode js (import_encode js cfg) = Inr cfg)"
proof (intro conjI impI)
  assume "key \<in> {''params'', ''template_params'', ''extra''} \<and> cfg_fields cfg key = Some v \<and>
    v \<noteq> FNone \<and> json_dumps js v = Some s"
  then show "cfg_fields (import_encode js cfg) key = Some (FStr s)"
    by (cases v) (simp_all add: import_encode_def encoded_fields [OF JSON_KEYS_distinct]
        encoded_value_def JSON_KEYS_set)
next
  assume "other \<notin> {''params'', ''template_params'', ''extra''}"
  then show "cfg_fields (import_encode js cfg) other = cfg_fields cfg other"
    by (simp add: import_encode_def encoded_fields [OF JSON_KEYS_distinct] JSON_KEYS_set)
next
  show "cfg_metrics (import_encode js cfg) = map_option (map (encode_attributes js)) (cfg_metrics cfg)"
    by (simp add: import_encode_def)
next
  show "cfg_columns (import_encode js cfg) = map_option (map (encode_attributes js)) (cfg_columns cfg)"
    by (simp add: import_encode_def)
next
  assume "a ''extra'' = Some v \<and> v \<noteq> FNone \<and> json_dumps js v = Some s"
  then show "encode_attributes js a ''extra'' = Some (FStr s)"
    by (cases v) (simp_all add: encode_attributes_def)
next
  assume h: "export_decode js stored = Inr payload \<and>
    key \<in> {''params'', ''template_params'', ''extra''} \<and>
    cfg_fields stored key = Some (FStr s') \<and> s' \<noteq> [] \<and> json_loads js s' = Some v'"
  then have f: "decode_keys js JSON_KEYS (cfg_fields stored) = Inr (cfg_fields payload)"
    by (simp add: export_decode_parts)
  from h have k: "key \<in> set JSON_KEYS" by (simp add: JSON_KEYS_set)
  from decoded_fields [OF f JSON_KEYS_distinct, of key] k
  have "decoded_value js (cfg_fields stored key) = Inr (cfg_fields payload key)"
    by simp
  with h show "cfg_fields payload key = Some v'"
    by (simp add: decoded_value_def field_truthy_def)
next
  assume h: "export_decode js stored = Inr payload \<and>
    other \<notin> {''params'', ''template_params'', ''extra''}"
  then have f: "decode_keys js JSON_KEYS (cfg_fields stored) = Inr (cfg_fields payload)"
    by (simp add: export_decode_parts)
  from h have k: "other \<notin> set JSON_KEYS" by (simp add: JSON_KEYS_set)
  from decoded_fields [OF f JSON_KEYS_distinct, of other] k
  show "cfg_fields payload other = cfg_fields stored other"
    by simp
next
  assume h: "export_decode js stored = Inr payload \<and> cfg_metrics stored = Some ms \<and>
    cfg_columns stored = Some cs"
  then have m: "decode_children js (Some ms) = Inr (cfg_metrics payload)"
    and c: "decode_children js (Some cs) = Inr (cfg_columns payload)"
    using export_decode_parts [of js stored payload] by simp_all
  from decode_children_Some [OF m] decode_children_Some [OF c]
  show "\<exists>ms' cs'. cfg_metrics payload = Some ms' \<and> decode_attributes js ms = Inr ms' \<and>
         cfg_columns payload = Some cs' \<and> decode_attributes js cs = Inr cs'"
    by blast
next
  assume "s' \<noteq> [] \<and> a ''extra'' = Some (FStr s') \<and> json_loads js s' = Some v'"
  then show "decode_key js ''extra'' a = Inr (a(''extra'' \<mapsto> v'))"
    by (simp add: decode_key_def field_truthy_def)
next
  assume h: "config_roundtrips js cfg"
  then show "export_decode js (import_encode js cfg) = Inr cfg"
    by (simp add: config_roundtrips_def export_decode_def import_encode_def roundtrip_fields
        roundtrip_children)
qed

theorem export_import_roundtrip_witness:
  "cfg_fields (import_encode python_json nested_config) ''template_params'' =
     Some (FStr ''[true, null]'') \<and>
   cfg_fields (import_encode python_json nested_config) ''extra'' =
     Some (FStr (CHR 0x22 # ''note'' @ [CHR 0x22])) \<and>
   cfg_fields (import_encode python_json nested_config) ''table_name'' = Some (FStr ''sales'') \<and>
   encode_attributes python_json
       [''metric_name'' \<mapsto> FStr ''revenue'', ''extra'' \<mapsto> FJson (JList [JInt 1, JInt 2])]
       ''extra'' = Some (FStr ''[1, 2]'') \<and>
   cfg_fields nested_config ''template_params'' = Some (FJson (JList [JBool True, JNone])) \<and>
   decode_key python_json ''extra'' [''extra'' \<mapsto> FStr ''[1, 2]''] =
     Inr ([''extra'' \<mapsto> FStr ''[1, 2]''](''extra'' \<mapsto> FJson (JList [JInt 1, JInt 2]))) \<and>
   config_roundtrips python_json nested_config \<and>
   export_decode python_json (import_encode python_json nested_config) = Inr nested_config"
proof -
  note t = export_import_roundtrip [where js = python_json and cfg = nested_config]
  have k1: "''template_params'' \<in> {''params'', ''template_params'', ''extra''} \<and>
      cfg_fields nested_config ''template_params'' = Some (FJson (JList [JBool True, JNone])) \<and>
      FJson (JList [JBool True, JNone]) \<noteq> FNone \<and>
      json_dumps python_json (FJson (JList [JBool True, JNone])) = Some ''[true, null]''"
    by code_simp
  have e1: "cfg_fields (import_encode python_json nested_config) ''template_params'' =
      Some (FStr ''[true, null]'')"
    by (rule t [THEN conjunct1, THEN mp, OF k1])
  have k2: "''extra'' \<in> {''params'', ''template_params'', ''extra''} \<and>
      cfg_fields nested_config ''extra'' = Some (FStr ''note'') \<and>
      FStr ''note'' \<noteq> (FNone :: pyjson field) \<and>
      json_dumps python_json (FStr ''note'') = Some (CHR 0x22 # ''note'' @ [CHR 0x22])"
    by code_simp
  have e2: "cfg_fields (import_encode python_json nested_config) ''extra'' =
      Some (FStr (CHR 0x22 # ''note'' @ [CHR 0x22]))"
    by (rule t [THEN conjunct1, THEN mp, OF k2])
  have k3: "''table_name'' \<notin> {''params'', ''template_params'', ''extra''}"
    by simp
  have e3: "cfg_fields (import_encode python_json nested_config) ''table_name'' =
      cfg_fields nested_config ''table_name''"
    by (rule t [THEN conjunct2, THEN conjunct1, THEN mp, OF k3])
  have v3: "cfg_fields nested_config ''table_name'' = Some (FStr ''sales'')"
    by (simp add: nested_config_def)
  have k4: "[''metric_name'' \<mapsto> FStr ''revenue'', ''extra'' \<mapsto> FJson (JList [JInt 1, JInt 2])]
        ''extra'' = Some (FJson (JList [JInt 1, JInt 2])) \<and>
      FJson (JList [JInt 1, JInt 2]) \<noteq> FNone \<and>
      json_dumps python_json (FJson (JList [JInt 1, JInt 2])) = Some ''[1, 2]''"
    by code_simp
  have e4: "encode_attributes python_json
       [''metric_name'' \<mapsto> FStr ''revenue'', ''extra'' \<mapsto> FJson (JList [JInt 1, JInt 2])]
       ''extra'' = Some (FStr ''[1, 2]'')"
    by (rule export_import_roundtrip
          [where a = "[''metric_name'' \<mapsto> FStr ''revenue'',
                       ''extra'' \<mapsto> FJson (JList [JInt 1, JInt 2])]",
           THEN conjunct2, THEN conjunct2, THEN conjunct2, THEN conjunct1, THEN mp, OF k4])
  have h: "config_roundtrips python_json nested_config"
    by code_simp
  have r: "export_decode python_json (import_encode python_json nested_config) = Inr nested_config"
    by (rule t [THEN conjunct2, THEN conjunct2, THEN conjunct2, THEN conjunct2, THEN conjunct2,
          THEN conjunct2, THEN conjunct2, THEN conjunct2, THEN mp, OF h])
  have l: "json_loads python_json ''[true, null]'' = Some (FJson (JList [JBool True, JNone]))"
    by code_simp
  have k5: "export_decode python_json (import_encode python_json nested_config) = Inr nested_config \<and>
      ''template_params'' \<in> {''params'', ''template_params'', ''extra''} \<and>
      cfg_fields (import_encode python_json nested_config) ''template_params'' =
        Some (FStr ''[true, null]'') \<and>
      ''[true, null]'' \<noteq> [] \<and>
      json_loads python_json ''[true, null]'' = Some (FJson (JList [JBool True, JNone]))"
    using r e1 l by simp
  have e5: "cfg_fields nested_config ''template_params'' = Some (FJson (JList [JBool True, JNone]))"
    by (rule export_import_roundtrip
          [THEN conjunct2, THEN conjunct2, THEN conjunct2, THEN conjunct2, THEN conjunct1,
           THEN mp, OF k5])
  have k6: "''[1, 2]'' \<noteq> [] \<and>
      ([''extra'' \<mapsto> FStr ''[1, 2]''] :: string \<rightharpoonup> pyjson field) ''extra'' =
        Some (FStr ''[1, 2]'') \<and>
      json_loads python_json ''[1, 2]'' = Some (FJson (JList [JInt 1, JInt 2]))"
    by code_simp
  have e6: "decode_key python_json ''extra'' [''extra'' \<mapsto> FStr ''[1, 2]''] =
      Inr ([''extra'' \<mapsto> FStr ''[1, 2]''](''extra'' \<mapsto> FJson (JList [JInt 1, JInt 2])))"
    by (rule export_import_roundtrip
          [where a = "[''extra'' \<mapsto> FStr ''[1, 2]'']",
           THEN conjunct2, THEN conjunct2, THEN conjunct2, THEN conjunct2, THEN conjunct2,
           THEN conjunct2, THEN conjunct2, THEN conjunct1, THEN mp, OF k6])
  from e1 e2 e3 e4 e5 e6 h r show ?thesis unfolding v3 by (intro conjI)
qed

text \<open>
  The claim as first stated fails. A payload whose \<open>params\<close> is a dictionary keyed by
  the integer 1 is stored as a valid JSON text, in which \<open>json.dumps\<close> has written the
  key as a string; \<open>json.loads\<close> decodes the text to a dictionary keyed by the string,
  so that exporting after importing does not give back the original value.
\<close>

theorem export_import_counterexample:
  "cfg_fields keyed_config ''params'' = Some (FJson (JDict [(KInt 1, JStr ''a'')])) \<and>
   cfg_fields (import_encode python_json keyed_config) ''params'' =
     Some (FStr (''{'' @ [CHR 0x22] @ ''1'' @ [CHR 0x22] @ '': '' @ [CHR 0x22] @ ''a'' @
                 [CHR 0x22] @ ''}'')) \<and>
   json_loads python_json
       (''{'' @ [CHR 0x22] @ ''1'' @ [CHR 0x22] @ '': '' @ [CHR 0x22] @ ''a'' @ [CHR 0x22] @ ''}'') =
     Some (FJson (JDict [(KStr ''1'', JStr ''a'')])) \<and>
   export_decode python_json (import_encode python_json keyed_config) =
     Inr (keyed_config\<lparr>cfg_fields :=
            (cfg_fields keyed_config)(''params'' \<mapsto> FJson (JDict [(KStr ''1'', JStr ''a'')]))\<rparr>) \<and>
   export_decode python_json (import_encode python_json keyed_config) \<noteq> Inr keyed_config"
proof -
  let ?s = "''{'' @ [CHR 0x22] @ ''1'' @ [CHR 0x22] @ '': '' @ [CHR 0x22] @ ''a'' @ [CHR 0x22] @ ''}''"
  let ?v = "FJson (JDict [(KStr ''1'', JStr ''a'')])"
  have a: "cfg_fields keyed_config ''params'' = Some (FJson (JDict [(KInt 1, JStr ''a'')]))"
    by (simp add: keyed_config_def)
  have b: "cfg_fields (import_encode python_json keyed_config) ''params'' = Some (FStr ?s)"
    by code_simp
  have c: "json_loads python_json ?s = Some ?v"
    by code_simp
  have f: "\<And>k. foldl (\<lambda>c key. encode_key python_json key c) (cfg_fields keyed_config) JSON_KEYS k =
      (if k = ''params'' then Some (FStr ?s) else cfg_fields keyed_config k)"
    using b by (auto simp: encoded_fields [OF JSON_KEYS_distinct] JSON_KEYS_set import_encode_def
        encoded_value_def keyed_config_def)
  have n1: "cfg_fields keyed_config ''template_params'' = None"
    by (simp add: keyed_config_def)
  have n2: "cfg_fields keyed_config ''extra'' = None"
    by (simp add: keyed_config_def)
  have d: "decode_keys python_json JSON_KEYS
      (foldl (\<lambda>c key. encode_key python_json key c) (cfg_fields keyed_config) JSON_KEYS) =
      Inr ((cfg_fields keyed_config)(''params'' \<mapsto> ?v))"
  proof (rule decode_keys_to [OF JSON_KEYS_distinct])
    show "\<forall>k. k \<notin> set JSON_KEYS \<longrightarrow>
        foldl (\<lambda>c key. encode_key python_json key c) (cfg_fields keyed_config) JSON_KEYS k =
        ((cfg_fields keyed_config)(''params'' \<mapsto> ?v)) k"
      by (simp add: f JSON_KEYS_set)
    show "\<forall>k\<in>set JSON_KEYS.
        decoded_value python_json
          (foldl (\<lambda>c key. encode_key python_json key c) (cfg_fields keyed_config) JSON_KEYS k) =
        Inr (((cfg_fields keyed_config)(''params'' \<mapsto> ?v)) k)"
      using c n1 n2 by (simp add: f JSON_KEYS_set decoded_value_def field_truthy_def)
  qed
  have e: "export_decode python_json (import_encode python_json keyed_config) =
      Inr (keyed_config\<lparr>cfg_fields := (cfg_fields keyed_config)(''params'' \<mapsto> ?v)\<rparr>)"
    using d by (simp add: export_decode_def import_encode_def decode_children_def keyed_config_def)
  have n: "(keyed_config\<lparr>cfg_fields := (cfg_fields keyed_config)(''params'' \<mapsto> ?v)\<rparr>) \<noteq> keyed_config"
  proof
    assume "(keyed_config\<lparr>cfg_fields := (cfg_fields keyed_config)(''params'' \<mapsto> ?v)\<rparr>) = keyed_config"
    then have "cfg_fields (keyed_config\<lparr>cfg_fields := (cfg_fields keyed_config)(''params'' \<mapsto> ?v)\<rparr>)
        ''params'' = cfg_fields keyed_config ''params''" by simp
    then show False by (simp add: keyed_config_def)
  qed
  from a b c e n show ?thesis by simp
qed

section \<open>Verification: loading CSV data\<close>






section \<open>Verification: import_datamanage\<close>

lemma first_index_Some:
  "first_index P xs = Some i \<Longrightarrow> i < length xs \<and> P (xs ! i)"
  by (induction xs arbitrary: i) (auto split: if_splits)

text \<open>
  Claim C10. When the uuid of the configuration is that of a stored dataset and
  overwrite is false, \<open>import_datamanage\<close> returns that dataset and leaves the state
  as it was: no field is updated, no data is loaded, no owner is appended.
\<close>

theorem import_existing_unchanged:
  "cfg_uuid config = Some u \<and> query_first (tables st) u = Some i \<longrightarrow>
     import_datamanage imp g st config False force_data = (Inr (tables st ! i), st) \<and>
     i < length (tables st) \<and> uuid (tables st ! i) = u"
  by (auto simp: import_datamanage_def query_first_def dest: first_index_Some)

theorem import_existing_unchanged_witness:
  "import_datamanage memory_importer (Some bob) \<lparr>tables = [sales], io_log = []\<rparr>
     sales_config False True = (Inr sales, \<lparr>tables = [sales], io_log = []\<rparr>)"
proof -
  have h: "cfg_uuid sales_config = Some ''b3a1'' \<and>
      query_first (tables \<lparr>tables = [sales], io_log = []\<rparr>) ''b3a1'' = Some 0"
    by (simp add: sales_config_def query_first_def sales_def)
  show ?thesis
    using import_existing_unchanged [where config = sales_config and u = "''b3a1''"
        and st = "\<lparr>tables = [sales], io_log = []\<rparr>" and i = 0 and imp = memory_importer
        and g = "Some bob" and force_data = True] h
    by simp
qed

lemma assign_ids_length: "length (assign_ids n ts) = length ts"
  by (induction ts arbitrary: n) (auto split: option.splits)

lemma assign_ids_children:
  "i < length ts \<Longrightarrow>
   columns (assign_ids n ts ! i) = columns (ts ! i) \<and>
   metrics (assign_ids n ts ! i) = metrics (ts ! i)"
proof (induction ts arbitrary: n i)
  case Nil
  then show ?case by simp
next
  case (Cons t ts)
  then show ?case by (cases i) (auto split: option.splits)
qed

lemma keeps_children_iff:
  "keeps_children ts ts' \<longleftrightarrow>
     length ts \<le> length ts' \<and>
     (\<forall>j<length ts.
        set (map column_name (columns (ts ! j))) \<subseteq> set (map column_name (columns (ts' ! j))) \<and>
        set (map metric_name (metrics (ts ! j))) \<subseteq> set (map metric_name (metrics (ts' ! j))))"
  by (simp add: keeps_children_def list_all_iff Ball_def)

lemma keeps_children_refl: "keeps_children ts ts"
  by (simp add: keeps_children_iff)

lemma keeps_children_trans:
  assumes "keeps_children a b" and "keeps_children b c"
  shows "keeps_children a c"
proof -
  from assms have l: "length a \<le> length b" "length b \<le> length c"
    by (simp_all add: keeps_children_iff)
  have "\<forall>j<length a.
        set (map column_name (columns (a ! j))) \<subseteq> set (map column_name (columns (c ! j))) \<and>
        set (map metric_name (metrics (a ! j))) \<subseteq> set (map metric_name (metrics (c ! j)))"
  proof (intro allI impI)
    fix j assume j: "j < length a"
    with l have jb: "j < length b" by simp
    from assms(1) j have
      "set (map column_name (columns (a ! j))) \<subseteq> set (map column_name (columns (b ! j))) \<and>
       set (map metric_name (metrics (a ! j))) \<subseteq> set (map metric_name (metrics (b ! j)))"
      unfolding keeps_children_iff by blast
    moreover from assms(2) jb have
      "set (map column_name (columns (b ! j))) \<subseteq> set (map column_name (columns (c ! j))) \<and>
       set (map metric_name (metrics (b ! j))) \<subseteq> set (map metric_name (metrics (c ! j)))"
      unfolding keeps_children_iff by blast
    ultimately show
      "set (map column_name (columns (a ! j))) \<subseteq> set (map column_name (columns (c ! j))) \<and>
       set (map metric_name (metrics (a ! j))) \<subseteq> set (map metric_name (metrics (c ! j)))"
      by blast
  qed
  with l show ?thesis unfolding keeps_children_iff by simp
qed

lemma keeps_children_flush: "keeps_children ts (flush ts)"
  by (simp add: keeps_children_iff flush_def assign_ids_length assign_ids_children)

lemma keeps_children_owners:
  "keeps_children ts (ts[k := (ts ! k)\<lparr>owners := os\<rparr>])"
proof (cases "k < length ts")
  case True
  then show ?thesis by (simp add: keeps_children_iff nth_list_update)
next
  case False
  then show ?thesis by (simp add: keeps_children_refl list_update_beyond not_less)
qed

lemma first_index_ex:
  "i < length xs \<Longrightarrow> P (xs ! i) \<Longrightarrow> \<exists>j. first_index P xs = Some j"
proof (induction xs arbitrary: i)
  case Nil
  then show ?case by simp
next
  case (Cons x xs)
  then show ?case by (cases i) auto
qed

lemma sync_children_names:
  "set (map name old) \<subseteq> set (map name (sync_children False name old new))"
  by (auto simp: sync_children_def)

lemma import_from_dict_spec_keeps:
  assumes "import_from_dict_spec ts cfg [] = (r, ts')"
  shows "keeps_children ts ts' \<and> (\<exists>k. r = Inr k \<and> k < length ts')"
proof (cases "case cfg_id cfg of None \<Rightarrow> None
              | Some n \<Rightarrow> first_index (\<lambda>t. tbl_id t = Some n) ts")
  case None
  with assms obtain x where "ts' = ts @ [x]" and "r = Inr (length ts)"
    by (auto simp: import_from_dict_spec_def Let_def)
  then show ?thesis
    by (simp add: keeps_children_iff nth_append)
next
  case (Some i)
  then have il: "i < length ts"
    by (auto split: option.splits dest: first_index_Some)
  from Some assms obtain t where ts': "ts' = ts[i := t]" and r: "r = Inr i"
    and c: "columns t = sync_children False column_name (columns (ts ! i))
              (map column_of_attributes (payload_children (cfg_columns cfg)))"
    and m: "metrics t = sync_children False metric_name (metrics (ts ! i))
              (map metric_of_attributes (payload_children (cfg_metrics cfg)))"
    by (auto simp: import_from_dict_spec_def Let_def)
  have "keeps_children ts ts'"
    unfolding keeps_children_iff
  proof (intro conjI allI impI)
    show "length ts \<le> length ts'" by (simp add: ts')
  next
    fix j assume j: "j < length ts"
    show "set (map column_name (columns (ts ! j))) \<subseteq> set (map column_name (columns (ts' ! j)))"
    proof (cases "j = i")
      case True
      then have "columns (ts' ! j) = columns t" using il by (simp add: ts')
      with c True show ?thesis
        using sync_children_names [of column_name "columns (ts ! i)"] by simp
    next
      case False
      then show ?thesis by (simp add: ts')
    qed
  next
    fix j assume j: "j < length ts"
    show "set (map metric_name (metrics (ts ! j))) \<subseteq> set (map metric_name (metrics (ts' ! j)))"
    proof (cases "j = i")
      case True
      then have "metrics (ts' ! j) = metrics t" using il by (simp add: ts')
      with m True show ?thesis
        using sync_children_names [of metric_name "metrics (ts ! i)"] by simp
    next
      case False
      then show ?thesis by (simp add: ts')
    qed
  qed
  with r il ts' show ?thesis by simp
qed

lemma encode_attributes_other: "k \<noteq> ''extra'' \<Longrightarrow> encode_attributes js a k = a k"
  by (auto simp: encode_attributes_def split: option.splits field.splits)

lemma names_encoded_columns:
  "map column_name (map column_of_attributes (payload_children (cfg_columns (import_encode js c)))) =
   map (\<lambda>a. field_str a ''column_name'') (payload_children (cfg_columns c))"
  by (cases "cfg_columns c")
     (simp_all add: import_encode_def payload_children_def column_of_attributes_def field_str_def
        encode_attributes_other comp_def)

lemma names_encoded_metrics:
  "map metric_name (map metric_of_attributes (payload_children (cfg_metrics (import_encode js c)))) =
   map (\<lambda>a. field_str a ''metric_name'') (payload_children (cfg_metrics c))"
  by (cases "cfg_metrics c")
     (simp_all add: import_encode_def payload_children_def metric_of_attributes_def field_str_def
        encode_attributes_other comp_def)

lemma import_overwrite_children:
  assumes u: "cfg_uuid config = Some u" and q: "query_first (tables st) u = Some i"
    and n: "tbl_id (tables st ! i) = Some n"
    and run: "import_datamanage (imp\<lparr>import_from_dict := import_from_dict_spec\<rparr>) g st config
                True force_data = (Inr dm, st')"
  shows "columns dm = map column_of_attributes (payload_children (cfg_columns
            (import_encode (imp_json imp) (config\<lparr>cfg_id := Some n\<rparr>)))) \<and>
         metrics dm = map metric_of_attributes (payload_children (cfg_metrics
            (import_encode (imp_json imp) (config\<lparr>cfg_id := Some n\<rparr>))))"
proof -
  let ?c2 = "import_encode (imp_json imp) (config\<lparr>cfg_id := Some n\<rparr>)"
  let ?cols = "map column_of_attributes (payload_children (cfg_columns ?c2))"
  let ?mets = "map metric_of_attributes (payload_children (cfg_metrics ?c2))"
  from q have il: "i < length (tables st)"
    by (auto simp: query_first_def dest: first_index_Some)
  from first_index_ex [of i "tables st" "\<lambda>t. tbl_id t = Some n"] il n
  obtain j where j: "first_index (\<lambda>t. tbl_id t = Some n) (tables st) = Some j" by auto
  from first_index_Some [OF j] have jl: "j < length (tables st)"
    and jn: "tbl_id (tables st ! j) = Some n" by simp_all
  let ?t = "(tables st ! j)\<lparr>table_name := field_str (cfg_fields ?c2) ''table_name'',
              columns := ?cols, metrics := ?mets\<rparr>"
  have id2: "cfg_id ?c2 = Some n" by (simp add: import_encode_def)
  have spec: "import_from_dict_spec (tables st) ?c2 [''columns'', ''metrics''] =
      (Inr j, (tables st)[j := ?t])"
    by (simp add: import_from_dict_spec_def Let_def id2 j sync_children_def)
  from run show ?thesis
    by (auto simp: import_datamanage_def Let_def sync_list_def u q n spec jl jn
        split: option.splits prod.splits if_splits)
qed

lemma import_no_overwrite_keeps:
  assumes run: "import_datamanage (imp\<lparr>import_from_dict := import_from_dict_spec\<rparr>) g st config
                  False force_data = (r, st')"
  shows "keeps_children (tables st) (tables st')"
proof (cases "cfg_uuid config")
  case None
  with run show ?thesis by (simp add: import_datamanage_def keeps_children_refl)
next
  case (Some u)
  show ?thesis
  proof (cases "query_first (tables st) u")
    case (Some i)
    with run \<open>cfg_uuid config = Some u\<close> show ?thesis
      by (simp add: import_datamanage_def keeps_children_refl)
  next
    case None
    let ?c2 = "import_encode (imp_json imp) config"
    obtain r0 ts1 where spec: "import_from_dict_spec (tables st) ?c2 [] = (r0, ts1)"
      by (cases "import_from_dict_spec (tables st) ?c2 []") auto
    from import_from_dict_spec_keeps [OF spec] obtain k where
      k1: "keeps_children (tables st) ts1" and r0: "r0 = Inr k" and kl: "k < length ts1"
      by auto
    let ?ts2 = "if tbl_id (ts1 ! k) = None then flush ts1 else ts1"
    have k2: "keeps_children ts1 ?ts2"
      by (simp add: keeps_children_flush keeps_children_refl)
    from run have "tables st' = ?ts2 \<or>
        (\<exists>os. tables st' = ?ts2[k := (?ts2 ! k)\<lparr>owners := os\<rparr>])"
      by (cases "tbl_id (ts1 ! k) = None")
         (auto simp: import_datamanage_def Let_def sync_list_def \<open>cfg_uuid config = Some u\<close>
            None spec r0 split: option.splits prod.splits if_splits)
    then have "keeps_children ?ts2 (tables st')"
      using keeps_children_owners [of ?ts2 k] keeps_children_refl [of ?ts2] by auto
    with k1 k2 show ?thesis by (blast intro: keeps_children_trans)
  qed
qed

text \<open>
  Claim C8. The list of relations to synchronise is \<open>["columns", "metrics"]\<close> when
  overwrite is requested and empty otherwise. With the mapper's import as modelled
  above, an overwrite of a stored dataset leaves it with exactly the columns and
  metrics of the incoming payload, so those absent from the payload are removed;
  without overwrite no stored dataset loses a column or a metric.
\<close>

theorem sync_on_overwrite:
  "sync_list True = [''columns'', ''metrics''] \<and> sync_list False = [] \<and>
   (cfg_uuid config = Some u \<and> query_first (tables st) u = Some i \<and>
    tbl_id (tables st ! i) = Some n \<and>
    import_datamanage (imp\<lparr>import_from_dict := import_from_dict_spec\<rparr>) g st config
      True force_data = (Inr dm, st') \<longrightarrow>
      map column_name (columns dm) =
        map (\<lambda>a. field_str a ''column_name'') (payload_children (cfg_columns config)) \<and>
      map metric_name (metrics dm) =
        map (\<lambda>a. field_str a ''metric_name'') (payload_children (cfg_metrics config))) \<and>
   (import_datamanage (imp\<lparr>import_from_dict := import_from_dict_spec\<rparr>) g st config
      False force_data = (r, st'') \<longrightarrow>
      keeps_children (tables st) (tables st''))"
proof (intro conjI impI)
  show "sync_list True = [''columns'', ''metrics'']" by (simp add: sync_list_def)
  show "sync_list False = []" by (simp add: sync_list_def)
next
  assume h: "cfg_uuid config = Some u \<and> query_first (tables st) u = Some i \<and>
    tbl_id (tables st ! i) = Some n \<and>
    import_datamanage (imp\<lparr>import_from_dict := import_from_dict_spec\<rparr>) g st config
      True force_data = (Inr dm, st')"
  then have c: "columns dm = map column_of_attributes (payload_children (cfg_columns
            (import_encode (imp_json imp) (config\<lparr>cfg_id := Some n\<rparr>)))) \<and>
         metrics dm = map metric_of_attributes (payload_children (cfg_metrics
            (import_encode (imp_json imp) (config\<lparr>cfg_id := Some n\<rparr>))))"
    by (intro import_overwrite_children [where u = u and i = i and st = st and g = g
          and force_data = force_data and st' = st']) simp_all
  from c show "map column_name (columns dm) =
        map (\<lambda>a. field_str a ''column_name'') (payload_children (cfg_columns config))"
    using names_encoded_columns [of "imp_json imp" "config\<lparr>cfg_id := Some n\<rparr>"] by simp
  from c show "map metric_name (metrics dm) =
        map (\<lambda>a. field_str a ''metric_name'') (payload_children (cfg_metrics config))"
    using names_encoded_metrics [of "imp_json imp" "config\<lparr>cfg_id := Some n\<rparr>"] by simp
next
  assume "import_datamanage (imp\<lparr>import_from_dict := import_from_dict_spec\<rparr>) g st config
      False force_data = (r, st'')"
  then show "keeps_children (tables st) (tables st'')"
    by (rule import_no_overwrite_keeps)
qed

theorem sync_on_overwrite_witness:
  "import_datamanage (memory_importer\<lparr>import_from_dict := import_from_dict_spec\<rparr>) (Some bob)
     \<lparr>tables = [sales], io_log = []\<rparr> sales_config True False =
     (Inr sales_synced, \<lparr>tables = [sales_synced], io_log = []\<rparr>) \<and>
   map column_name (columns sales) = [''day'', ''amount''] \<and>
   map column_name (columns sales_synced) = [''amount''] \<and>
   map metric_name (metrics sales_synced) = [''revenue''] \<and>
   keeps_children [sales]
     (tables (snd (import_datamanage (memory_importer\<lparr>import_from_dict := import_from_dict_spec\<rparr>)
        (Some bob) \<lparr>tables = [sales], io_log = []\<rparr> sales_config False False)))"
proof -
  let ?imp = "memory_importer\<lparr>import_from_dict := import_from_dict_spec\<rparr>"
  let ?st = "\<lparr>tables = [sales], io_log = []\<rparr> :: (string, string list) istate"
  have run: "import_datamanage ?imp (Some bob) ?st sales_config True False =
      (Inr sales_synced, \<lparr>tables = [sales_synced], io_log = []\<rparr>)"
    by (simp add: import_datamanage_def memory_importer_def sales_config_def sales_def
        sales_synced_def query_first_def import_encode_def JSON_KEYS_def encode_key_def
        encode_attributes_def simple_json_def sync_list_def import_from_dict_spec_def
        payload_children_def column_of_attributes_def metric_of_attributes_def field_str_def
        field_str_opt_def sync_children_def Let_def alice_def bob_def)
  have h0: "cfg_uuid sales_config = Some ''b3a1''" "query_first (tables ?st) ''b3a1'' = Some 0"
    "tbl_id (tables ?st ! 0) = Some 1"
    by (simp_all add: sales_config_def query_first_def sales_def)
  from h0 run have h: "cfg_uuid sales_config = Some ''b3a1'' \<and>
      query_first (tables ?st) ''b3a1'' = Some 0 \<and> tbl_id (tables ?st ! 0) = Some 1 \<and>
      import_datamanage ?imp (Some bob) ?st sales_config True False =
        (Inr sales_synced, \<lparr>tables = [sales_synced], io_log = []\<rparr>)"
    by (intro conjI)
  have c: "map column_name (columns sales_synced) =
        map (\<lambda>a. field_str a ''column_name'') (payload_children (cfg_columns sales_config)) \<and>
      map metric_name (metrics sales_synced) =
        map (\<lambda>a. field_str a ''metric_name'') (payload_children (cfg_metrics sales_config))"
    by (rule sync_on_overwrite [THEN conjunct2, THEN conjunct2, THEN conjunct1, THEN mp, OF h])
  have k: "keeps_children (tables ?st)
      (tables (snd (import_datamanage ?imp (Some bob) ?st sales_config False False)))"
    by (rule sync_on_overwrite [THEN conjunct2, THEN conjunct2, THEN conjunct2, THEN mp])
       (rule prod.collapse [symmetric])
  have n: "map column_name (columns sales) = [''day'', ''amount'']"
    "map column_name (columns sales_synced) = [''amount'']"
    "map metric_name (metrics sales_synced) = [''revenue'']"
    by (simp_all add: sales_def sales_synced_def)
  from k have k': "keeps_children [sales]
      (tables (snd (import_datamanage ?imp (Some bob) ?st sales_config False False)))"
    by simp
  from run n k' show ?thesis by simp
qed

section \<open>Verification: validation of an update\<close>

lemma counter_add_lookup:
  "map_of (counter_add v acc) w =
     (if w = v then Some (case map_of acc v of None \<Rightarrow> 1 | Some c \<Rightarrow> c + 1) else map_of acc w)"
  by (induction v acc rule: counter_add.induct) auto

lemma counter_add_keys: "fst ` set (counter_add v acc) = insert v (fst ` set acc)"
  by (induction v acc rule: counter_add.induct) auto

lemma counter_add_distinct:
  "distinct (map fst acc) \<Longrightarrow> distinct (map fst (counter_add v acc))"
  by (induction v acc rule: counter_add.induct) (auto simp: counter_add_keys)

lemma foldl_counter:
  "distinct (map fst acc) \<Longrightarrow>
   distinct (map fst (foldl (\<lambda>acc v. counter_add v acc) acc vs)) \<and>
   map_of (foldl (\<lambda>acc v. counter_add v acc) acc vs) w =
     (if count_list vs w = 0 then map_of acc w
      else Some ((case map_of acc w of None \<Rightarrow> 0 | Some c \<Rightarrow> c) + count_list vs w))"
proof (induction vs arbitrary: acc)
  case Nil
  then show ?case by simp
next
  case (Cons v vs)
  from Cons.prems have d: "distinct (map fst (counter_add v acc))"
    by (rule counter_add_distinct)
  from Cons.IH [OF d] show ?case
    by (auto simp: counter_add_lookup split: option.splits)
qed

lemma Counter_from_hashable:
  "list_all hashable vs \<Longrightarrow>
   Counter_from vs acc = Inr (foldl (\<lambda>acc v. counter_add v acc) acc vs)"
  by (induction vs arbitrary: acc) auto

lemma Counter_from_error: "Counter_from vs acc = Inl ex \<Longrightarrow> \<exists>msg. ex = TypeError msg"
  by (induction vs arbitrary: acc) (auto split: if_splits)

lemma Counter_from_unhashable:
  "\<not> list_all hashable vs \<Longrightarrow> \<exists>msg. Counter_from vs acc = Inl (TypeError msg)"
  by (induction vs arbitrary: acc) auto

lemma counts_distinct: "distinct (map fst (foldl (\<lambda>acc v. counter_add v acc) [] vs))"
  using foldl_counter [of "[]" vs] by simp

lemma counts_lookup:
  "map_of (foldl (\<lambda>acc v. counter_add v acc) [] vs) w =
     (if count_list vs w = 0 then None else Some (count_list vs w))"
  using foldl_counter [of "[]" vs w] by simp

lemma counts_mem:
  "(x, c) \<in> set (foldl (\<lambda>acc v. counter_add v acc) [] vs) \<longleftrightarrow> count_list vs x = c \<and> c \<noteq> 0"
proof -
  have "(x, c) \<in> set (foldl (\<lambda>acc v. counter_add v acc) [] vs) \<longleftrightarrow>
      map_of (foldl (\<lambda>acc v. counter_add v acc) [] vs) x = Some c"
    using counts_distinct [of vs] by simp
  then show ?thesis by (auto simp: counts_lookup)
qed

lemma duplicates_set:
  "set (map fst (filter (\<lambda>(name, count). count > 1) (foldl (\<lambda>acc v. counter_add v acc) [] vs))) =
     {v. 1 < count_list vs v}"
proof (intro set_eqI iffI)
  fix x
  assume "x \<in> set (map fst (filter (\<lambda>(name, count). count > 1)
      (foldl (\<lambda>acc v. counter_add v acc) [] vs)))"
  then obtain c where "(x, c) \<in> set (foldl (\<lambda>acc v. counter_add v acc) [] vs)" and "1 < c"
    by auto
  then show "x \<in> {v. 1 < count_list vs v}" by (simp add: counts_mem)
next
  fix x assume "x \<in> {v. 1 < count_list vs v}"
  then have "(x, count_list vs x) \<in> set (foldl (\<lambda>acc v. counter_add v acc) [] vs)"
    and "1 < count_list vs x"
    by (simp_all add: counts_mem)
  then have "(x, count_list vs x) \<in> set (filter (\<lambda>(name, count). count > 1)
      (foldl (\<lambda>acc v. counter_add v acc) [] vs))"
    by simp
  then show "x \<in> set (map fst (filter (\<lambda>(name, count). count > 1)
      (foldl (\<lambda>acc v. counter_add v acc) [] vs)))"
    by (metis fst_conv image_eqI set_map)
qed

lemma duplicates_distinct:
  "distinct (map fst (filter P (foldl (\<lambda>acc v. counter_add v acc) [] vs)))"
  by (simp add: distinct_map_filter counts_distinct)

lemma distinct_count_list: "distinct xs \<longleftrightarrow> (\<forall>x. count_list xs x \<le> 1)"
proof (induction xs)
  case Nil
  then show ?case by simp
next
  case (Cons a xs)
  show ?case
  proof
    assume d: "distinct (a # xs)"
    then have "count_list xs a = 0" by (simp add: count_list_0_iff)
    with d Cons show "\<forall>x. count_list (a # xs) x \<le> 1" by auto
  next
    assume c: "\<forall>x. count_list (a # xs) x \<le> 1"
    then have "count_list (a # xs) a \<le> 1" by blast
    then have a: "a \<notin> set xs" by (simp add: count_list_0_iff)
    have "\<forall>x. count_list xs x \<le> 1"
    proof
      fix x
      from c have "count_list (a # xs) x \<le> 1" by blast
      then show "count_list xs x \<le> 1" by (simp split: if_splits)
    qed
    with a Cons show "distinct (a # xs)" by simp
  qed
qed

lemma key_values_Inr:
  "\<forall>r\<in>set data. r key \<noteq> None \<Longrightarrow> key_values data key = Inr (map (\<lambda>r. the (r key)) data)"
  by (induction data) auto

lemma key_values_error: "key_values data key = Inl ex \<Longrightarrow> ex = KeyError key"
  by (induction data arbitrary: ex) (auto split: option.splits sum.splits)

lemma count_list_key:
  "\<forall>r\<in>set data. r key \<noteq> None \<Longrightarrow>
   count_list (map (\<lambda>r. the (r key)) data) v = length (filter (\<lambda>r. r key = Some v) data)"
  by (induction data) auto

lemma key_values_missing:
  "\<exists>r\<in>set data. r key = None \<Longrightarrow> key_values data key = Inl (KeyError key)"
proof (induction data)
  case Nil
  then show ?case by simp
next
  case (Cons a data)
  show ?case
  proof (cases "a key")
    case None
    then show ?thesis by simp
  next
    case (Some v)
    with Cons.prems have "\<exists>r\<in>set data. r key = None" by auto
    from Cons.IH [OF this] Some show ?thesis by simp
  qed
qed

lemma has_hashable_present: "has_hashable key r \<Longrightarrow> r key \<noteq> None"
  by (simp add: has_hashable_def split: option.splits)

lemma has_hashable_values:
  "\<forall>r\<in>set data. has_hashable key r \<Longrightarrow> list_all hashable (map (\<lambda>r. the (r key)) data)"
  by (induction data) (auto simp: has_hashable_def split: option.splits)

lemma get_duplicates_present:
  assumes "\<forall>r\<in>set data. has_hashable key r"
  shows "\<exists>ds. get_duplicates data key = Inr ds \<and> distinct ds \<and>
           set ds = {v. 1 < length (filter (\<lambda>r. r key = Some v) data)} \<and>
           (ds = [] \<longleftrightarrow> distinct (map (\<lambda>r. the (r key)) data))"
proof -
  let ?vs = "map (\<lambda>r. the (r key)) data"
  let ?counts = "foldl (\<lambda>acc v. counter_add v acc) [] ?vs"
  let ?ds = "map fst (filter (\<lambda>(name, count). count > 1) ?counts)"
  from assms have p: "\<forall>r\<in>set data. r key \<noteq> None"
    by (auto dest: has_hashable_present)
  have c: "Counter ?vs = Inr ?counts"
    unfolding Counter_def by (rule Counter_from_hashable [OF has_hashable_values [OF assms]])
  have g: "get_duplicates data key = Inr ?ds"
    by (simp add: get_duplicates_def key_values_Inr [OF p] c)
  have s: "set ?ds = {v. 1 < length (filter (\<lambda>r. r key = Some v) data)}"
    by (simp only: duplicates_set count_list_key [OF p])
  have "?ds = [] \<longleftrightarrow> set ?ds = {}" by (simp only: set_empty)
  also have "\<dots> \<longleftrightarrow> (\<forall>v. count_list ?vs v \<le> 1)"
    by (simp only: duplicates_set) (auto simp: not_less)
  also have "\<dots> \<longleftrightarrow> distinct ?vs" by (simp add: distinct_count_list)
  finally have e: "?ds = [] \<longleftrightarrow> distinct ?vs" .
  from g s e duplicates_distinct show ?thesis by blast
qed

lemma get_duplicates_unhashable:
  assumes "\<forall>r\<in>set data. r key \<noteq> None" and "\<exists>r\<in>set data. \<not> has_hashable key r"
  shows "\<exists>msg. get_duplicates data key = Inl (TypeError msg)"
proof -
  let ?vs = "map (\<lambda>r. the (r key)) data"
  from assms(2) obtain r where r: "r \<in> set data" "\<not> has_hashable key r" by blast
  with assms(1) obtain y where "r key = Some y" by auto
  with r have "\<not> hashable (the (r key))" by (simp add: has_hashable_def)
  with r(1) have n: "\<not> list_all hashable ?vs" by (auto simp: list_all_iff)
  from Counter_from_unhashable [OF n, of "[]"] obtain msg where
    "Counter ?vs = Inl (TypeError msg)" by (auto simp: Counter_def)
  then show ?thesis
    by (simp add: get_duplicates_def key_values_Inr [OF assms(1)])
qed

lemma key_values_with_id: "\<exists>ids. key_values (with_id items) ''id'' = Inr ids"
  by (rule exI, rule key_values_Inr) (simp add: with_id_def)

lemma key_values_without_id:
  "\<forall>r\<in>set items. r key \<noteq> None \<Longrightarrow> \<exists>ns. key_values (without_id items) key = Inr ns"
  by (rule exI, rule key_values_Inr) (simp add: without_id_def)

text \<open>
  Claim C4, as amended. For every list of records that each carry the key with a
  hashable value, \<open>_get_duplicates\<close> returns, without repetition, exactly the key
  values that occur in more than one record, and the empty list if and only if the key
  values are all distinct. When a record lacks the key it raises \<open>KeyError\<close>, and when
  every record has the key but some value is not hashable (a list, a dictionary) it
  raises \<open>TypeError\<close>. For lists of columns and of metrics whose records carry the name
  with a hashable value, the validation appends the duplicate-name error, and nothing
  else, when that list of duplicates is non-empty, and does not append it when the
  list is empty.
\<close>

theorem get_duplicates_counts:
  "((\<forall>r\<in>set data. has_hashable key r) \<longrightarrow>
      (\<exists>ds. get_duplicates data key = Inr ds \<and> distinct ds \<and>
         set ds = {v. 1 < length (filter (\<lambda>r. r key = Some v) data)} \<and>
         (ds = [] \<longleftrightarrow> distinct (map (\<lambda>r. the (r key)) data)))) \<and>
   ((\<exists>r\<in>set data'. r key = None) \<longrightarrow> get_duplicates data' key = Inl (KeyError key)) \<and>
   ((\<forall>r\<in>set data''. r key \<noteq> None) \<and> (\<exists>r\<in>set data''. \<not> has_hashable key r) \<longrightarrow>
      (\<exists>msg. get_duplicates data'' key = Inl (TypeError msg))) \<and>
   ((\<forall>c\<in>set cols. has_hashable ''column_name'' c) \<longrightarrow>
      (\<exists>ds. get_duplicates cols ''column_name'' = Inr ds \<and>
         (ds \<noteq> [] \<longrightarrow>
            validate_columns e s model_id override_columns cols exceptions =
              Inr (exceptions @ [DatamanageColumnsDuplicateValidationError])) \<and>
         (ds = [] \<longrightarrow>
            (\<exists>rest. validate_columns e s model_id override_columns cols exceptions =
                 Inr (exceptions @ rest) \<and>
               DatamanageColumnsDuplicateValidationError \<notin> set rest)))) \<and>
   ((\<forall>c\<in>set mets. has_hashable ''metric_name'' c) \<longrightarrow>
      (\<exists>ds. get_duplicates mets ''metric_name'' = Inr ds \<and>
         (ds \<noteq> [] \<longrightarrow>
            validate_metrics e s model_id mets exceptions =
              Inr (exceptions @ [DatamanageMetricsDuplicateValidationError])) \<and>
         (ds = [] \<longrightarrow>
            (\<exists>rest. validate_metrics e s model_id mets exceptions =
                 Inr (exceptions @ rest) \<and>
               DatamanageMetricsDuplicateValidationError \<notin> set rest))))"
proof (intro conjI impI)
  assume "\<forall>r\<in>set data. has_hashable key r"
  then show "\<exists>ds. get_duplicates data key = Inr ds \<and> distinct ds \<and>
         set ds = {v. 1 < length (filter (\<lambda>r. r key = Some v) data)} \<and>
         (ds = [] \<longleftrightarrow> distinct (map (\<lambda>r. the (r key)) data))"
    by (rule get_duplicates_present)
next
  assume "\<exists>r\<in>set data'. r key = None"
  then show "get_duplicates data' key = Inl (KeyError key)"
    by (simp add: get_duplicates_def key_values_missing)
next
  assume "(\<forall>r\<in>set data''. r key \<noteq> None) \<and> (\<exists>r\<in>set data''. \<not> has_hashable key r)"
  then show "\<exists>msg. get_duplicates data'' key = Inl (TypeError msg)"
    by (intro get_duplicates_unhashable) simp_all
next
  assume a: "\<forall>c\<in>set cols. has_hashable ''column_name'' c"
  then have p: "\<forall>c\<in>set cols. c ''column_name'' \<noteq> None"
    by (auto dest: has_hashable_present)
  from get_duplicates_present [OF a] obtain ds where
    ds: "get_duplicates cols ''column_name'' = Inr ds" by blast
  from key_values_with_id [of cols] obtain ids where
    ids: "key_values (with_id cols) ''id'' = Inr ids" by blast
  from key_values_without_id [OF p] obtain ns where
    ns: "key_values (without_id cols) ''column_name'' = Inr ns" by blast
  show "\<exists>ds. get_duplicates cols ''column_name'' = Inr ds \<and>
         (ds \<noteq> [] \<longrightarrow>
            validate_columns e s model_id override_columns cols exceptions =
              Inr (exceptions @ [DatamanageColumnsDuplicateValidationError])) \<and>
         (ds = [] \<longrightarrow>
            (\<exists>rest. validate_columns e s model_id override_columns cols exceptions =
                 Inr (exceptions @ rest) \<and>
               DatamanageColumnsDuplicateValidationError \<notin> set rest))"
    by (rule exI [of _ ds]) (simp add: validate_columns_def ds ids ns Let_def)
next
  assume a: "\<forall>c\<in>set mets. has_hashable ''metric_name'' c"
  then have p: "\<forall>c\<in>set mets. c ''metric_name'' \<noteq> None"
    by (auto dest: has_hashable_present)
  from get_duplicates_present [OF a] obtain ds where
    ds: "get_duplicates mets ''metric_name'' = Inr ds" by blast
  from key_values_with_id [of mets] obtain ids where
    ids: "key_values (with_id mets) ''id'' = Inr ids" by blast
  from key_values_without_id [OF p] obtain ns where
    ns: "key_values (without_id mets) ''metric_name'' = Inr ns" by blast
  show "\<exists>ds. get_duplicates mets ''metric_name'' = Inr ds \<and>
         (ds \<noteq> [] \<longrightarrow>
            validate_metrics e s model_id mets exceptions =
              Inr (exceptions @ [DatamanageMetricsDuplicateValidationError])) \<and>
         (ds = [] \<longrightarrow>
            (\<exists>rest. validate_metrics e s model_id mets exceptions =
                 Inr (exceptions @ rest) \<and>
               DatamanageMetricsDuplicateValidationError \<notin> set rest))"
    by (rule exI [of _ ds]) (simp add: validate_metrics_def ds ids ns Let_def)
qed

theorem get_duplicates_counts_witness:
  "get_duplicates [[''column_name'' \<mapsto> PStr ''day''], [''column_name'' \<mapsto> PStr ''amount''],
                   [''column_name'' \<mapsto> PStr ''day'']] ''column_name'' = Inr [PStr ''day''] \<and>
   get_duplicates [[''column_name'' \<mapsto> PStr ''day''], [''id'' \<mapsto> PInt 3]] ''column_name'' =
     Inl (KeyError ''column_name'') \<and>
   get_duplicates [[''column_name'' \<mapsto> PList [PStr ''day'']]] ''column_name'' =
     Inl (TypeError ''unhashable type'') \<and>
   validate_columns (memory_env False) [sales] 1 False
     [[''column_name'' \<mapsto> PStr ''day''], [''column_name'' \<mapsto> PStr ''amount''],
      [''column_name'' \<mapsto> PStr ''day'']] [] =
     Inr [DatamanageColumnsDuplicateValidationError] \<and>
   validate_metrics (memory_env False) [sales] 1
     [[''metric_name'' \<mapsto> PStr ''total''], [''metric_name'' \<mapsto> PStr ''mean'']] [] = Inr []"
proof -
  let ?cols = "[[''column_name'' \<mapsto> PStr ''day''], [''column_name'' \<mapsto> PStr ''amount''],
                [''column_name'' \<mapsto> PStr ''day'']]"
  let ?mets = "[[''metric_name'' \<mapsto> PStr ''total''], [''metric_name'' \<mapsto> PStr ''mean'']]"
  let ?nokey = "[[''column_name'' \<mapsto> PStr ''day''], [''id'' \<mapsto> PInt 3]]"
  let ?unhash = "[[''column_name'' \<mapsto> PList [PStr ''day'']]]"
  note t = get_duplicates_counts [where data = ?cols and key = "''column_name''" and cols = ?cols
      and mets = ?mets and e = "memory_env False" and s = "[sales]" and model_id = 1
      and override_columns = False and exceptions = "[]" and data' = ?nokey
      and data'' = ?unhash]
  have h1: "\<forall>c\<in>set ?cols. has_hashable ''column_name'' c" by (simp add: has_hashable_def)
  have h2: "\<forall>c\<in>set ?mets. has_hashable ''metric_name'' c" by (simp add: has_hashable_def)
  have h3: "\<exists>r\<in>set ?nokey. r ''column_name'' = None" by simp
  have h4: "(\<forall>r\<in>set ?unhash. r ''column_name'' \<noteq> None) \<and>
      (\<exists>r\<in>set ?unhash. \<not> has_hashable ''column_name'' r)"
    by (simp add: has_hashable_def)
  have d1: "get_duplicates ?cols ''column_name'' = Inr [PStr ''day'']"
    by (simp add: get_duplicates_def Counter_def)
  have d2: "get_duplicates ?mets ''metric_name'' = Inr []"
    by (simp add: get_duplicates_def Counter_def)
  have t0: "\<exists>ds. get_duplicates ?cols ''column_name'' = Inr ds \<and> distinct ds \<and>
      set ds = {v. 1 < length (filter (\<lambda>r. r ''column_name'' = Some v) ?cols)} \<and>
      (ds = [] \<longleftrightarrow> distinct (map (\<lambda>r. the (r ''column_name'')) ?cols))"
    by (rule t [THEN conjunct1, THEN mp, OF h1])
  have k: "get_duplicates ?nokey ''column_name'' = Inl (KeyError ''column_name'')"
    by (rule t [THEN conjunct2, THEN conjunct1, THEN mp, OF h3])
  have "\<exists>msg. get_duplicates ?unhash ''column_name'' = Inl (TypeError msg)"
    by (rule t [THEN conjunct2, THEN conjunct2, THEN conjunct1, THEN mp, OF h4])
  then have u: "get_duplicates ?unhash ''column_name'' = Inl (TypeError ''unhashable type'')"
    by (simp add: get_duplicates_def Counter_def)
  have "\<exists>ds. get_duplicates ?cols ''column_name'' = Inr ds \<and>
      (ds \<noteq> [] \<longrightarrow>
         validate_columns (memory_env False) [sales] 1 False ?cols [] =
           Inr ([] @ [DatamanageColumnsDuplicateValidationError])) \<and>
      (ds = [] \<longrightarrow>
         (\<exists>rest. validate_columns (memory_env False) [sales] 1 False ?cols [] = Inr ([] @ rest) \<and>
            DatamanageColumnsDuplicateValidationError \<notin> set rest))"
    by (rule t [THEN conjunct2, THEN conjunct2, THEN conjunct2, THEN conjunct1, THEN mp, OF h1])
  with d1 have c: "validate_columns (memory_env False) [sales] 1 False ?cols [] =
      Inr [DatamanageColumnsDuplicateValidationError]"
    by auto
  have "\<exists>ds. get_duplicates ?mets ''metric_name'' = Inr ds \<and>
      (ds \<noteq> [] \<longrightarrow>
         validate_metrics (memory_env False) [sales] 1 ?mets [] =
           Inr ([] @ [DatamanageMetricsDuplicateValidationError])) \<and>
      (ds = [] \<longrightarrow>
         (\<exists>rest. validate_metrics (memory_env False) [sales] 1 ?mets [] = Inr ([] @ rest) \<and>
            DatamanageMetricsDuplicateValidationError \<notin> set rest))"
    by (rule t [THEN conjunct2, THEN conjunct2, THEN conjunct2, THEN conjunct2, THEN mp, OF h2])
  with d2 obtain rest where
    r: "validate_metrics (memory_env False) [sales] 1 ?mets [] = Inr rest"
    by auto
  have m: "validate_metrics (memory_env False) [sales] 1 ?mets [] = Inr []"
    by (simp add: validate_metrics_def d2 with_id_def without_id_def memory_env_def)
  from d1 k u c m show ?thesis by (intro conjI)
qed

text \<open>
  The claim as first stated fails: on a record without the key the comprehension
  raises \<open>KeyError\<close>, and on a key value that is a list the counter raises
  \<open>TypeError\<close>; in both cases nothing is returned.
\<close>

theorem get_duplicates_counterexample:
  "get_duplicates [[''column_name'' \<mapsto> PStr ''day''], [''id'' \<mapsto> PInt 3]] ''column_name'' =
     Inl (KeyError ''column_name'') \<and>
   get_duplicates [[''column_name'' \<mapsto> PList [PStr ''day'', PStr ''amount'']]] ''column_name'' =
     Inl (TypeError ''unhashable type'')"
  by (simp add: get_duplicates_def Counter_def)

lemma get_duplicates_error:
  "get_duplicates data key = Inl ex \<Longrightarrow> (\<exists>k. ex = KeyError k) \<or> (\<exists>msg. ex = TypeError msg)"
  by (auto simp: get_duplicates_def Counter_def split: sum.splits
      dest: key_values_error Counter_from_error)

lemma validate_columns_result:
  "validate_columns e s model_id oc cols exceptions = Inr r \<Longrightarrow>
   \<exists>rest. r = exceptions @ rest \<and> DatabaseChangeValidationError \<notin> set rest"
  by (auto simp: validate_columns_def Let_def split: sum.splits if_splits)

lemma validate_columns_error:
  "validate_columns e s model_id oc cols exceptions = Inl ex \<Longrightarrow>
   (\<exists>k. ex = KeyError k) \<or> (\<exists>msg. ex = TypeError msg)"
  by (auto simp: validate_columns_def Let_def split: sum.splits if_splits
      dest: get_duplicates_error key_values_error)

lemma validate_metrics_result:
  "validate_metrics e s model_id mets exceptions = Inr r \<Longrightarrow>
   \<exists>rest. r = exceptions @ rest \<and> DatabaseChangeValidationError \<notin> set rest"
  by (auto simp: validate_metrics_def Let_def split: sum.splits if_splits)

lemma validate_metrics_error:
  "validate_metrics e s model_id mets exceptions = Inl ex \<Longrightarrow>
   (\<exists>k. ex = KeyError k) \<or> (\<exists>msg. ex = TypeError msg)"
  by (auto simp: validate_metrics_def Let_def split: sum.splits if_splits
      dest: get_duplicates_error key_values_error)

lemma collect_exceptions_error:
  "collect_exceptions e g s model_id m props = Inl ex \<Longrightarrow>
   (\<exists>k. ex = KeyError k) \<or> (\<exists>msg. ex = TypeError msg)"
  by (auto simp: collect_exceptions_def Let_def
      split: sum.splits option.splits if_splits prod.splits
      dest: validate_columns_error validate_metrics_error)

lemma columns_step:
  assumes "(case pc of None \<Rightarrow> Inr x
            | Some cols \<Rightarrow> if cols \<noteq> [] then validate_columns e s model_id oc cols x
                          else Inr x) = Inr y"
  shows "DatabaseChangeValidationError \<in> set y \<longleftrightarrow> DatabaseChangeValidationError \<in> set x"
  using assms by (auto split: option.splits if_splits dest!: validate_columns_result)

lemma metrics_step:
  assumes "(case pm of None \<Rightarrow> Inr x
            | Some mets \<Rightarrow> if mets \<noteq> [] then validate_metrics e s model_id mets x
                          else Inr x) = Inr y"
  shows "DatabaseChangeValidationError \<in> set y \<longleftrightarrow> DatabaseChangeValidationError \<in> set x"
  using assms by (auto split: option.splits if_splits dest!: validate_metrics_result)

lemma two_steps:
  "(case A of Inl ex \<Rightarrow> Inl ex
    | Inr ex4 \<Rightarrow> (case B ex4 of Inl ex \<Rightarrow> Inl ex | Inr ex5 \<Rightarrow> Inr (ex5, p))) = Inr (excs, p1) \<Longrightarrow>
   \<exists>ex4. A = Inr ex4 \<and> B ex4 = Inr excs"
  by (auto split: sum.splits)

lemma collect_exceptions_database:
  assumes "collect_exceptions e g s model_id m props = Inr (excs, props1)"
  shows "DatabaseChangeValidationError \<in> set excs \<longleftrightarrow>
           (case p_database props of None \<Rightarrow> False | Some v \<Rightarrow> truthy v \<and> v \<noteq> PModel m) \<or>
           populate_owners e s g (owner_ids_of props) = Inl DatabaseChangeValidationError"
proof -
  let ?ex1 = "if \<not> validate_update_uniqueness e s (database_id m) model_id (p_table_name props)
              then [DatamanageExistsValidationError (p_table_name props)] else []"
  let ?c = "case p_database props of None \<Rightarrow> False | Some v \<Rightarrow> truthy v \<and> v \<noteq> PModel m"
  let ?ex2 = "database_check m (p_database props) ?ex1"
  let ?A = "\<lambda>p x. case p_columns p of None \<Rightarrow> Inr x
            | Some cols \<Rightarrow>
                if cols \<noteq> []
                then validate_columns e s model_id (p_override_columns p) cols x
                else Inr x"
  let ?B = "\<lambda>p x. case p_metrics p of None \<Rightarrow> Inr x
            | Some mets \<Rightarrow> if mets \<noteq> [] then validate_metrics e s model_id mets x else Inr x"
  have e2: "DatabaseChangeValidationError \<in> set ?ex2 \<longleftrightarrow> ?c"
    by (simp add: database_check_def)
  show ?thesis
  proof (cases "populate_owners e s g (owner_ids_of props)")
    case (Inl ex)
    have u: "collect_exceptions e g s model_id m props =
        (case ?A props (?ex2 @ [ex]) of Inl ex \<Rightarrow> Inl ex
         | Inr ex4 \<Rightarrow> (case ?B props ex4 of Inl ex \<Rightarrow> Inl ex | Inr ex5 \<Rightarrow> Inr (ex5, props)))"
      using Inl by (simp add: collect_exceptions_def Let_def)
    have big: "(case ?A props (?ex2 @ [ex]) of Inl ex \<Rightarrow> Inl ex
         | Inr ex4 \<Rightarrow> (case ?B props ex4 of Inl ex \<Rightarrow> Inl ex | Inr ex5 \<Rightarrow> Inr (ex5, props))) =
        Inr (excs, props1)"
      by (rule trans [OF u [symmetric] assms])
    from two_steps [OF big] obtain ex4 where
      c: "?A props (?ex2 @ [ex]) = Inr ex4" and mm: "?B props ex4 = Inr excs"
      by blast
    have "DatabaseChangeValidationError \<in> set excs \<longleftrightarrow>
        DatabaseChangeValidationError \<in> set (?ex2 @ [ex])"
      using columns_step [OF c] metrics_step [OF mm] by simp
    also have "\<dots> \<longleftrightarrow> ?c \<or> ex = DatabaseChangeValidationError"
      using e2 by auto
    finally show ?thesis using Inl by auto
  next
    case (Inr os)
    let ?p = "props\<lparr>p_owners := Some (Owners os)\<rparr>"
    have u: "collect_exceptions e g s model_id m props =
        (case ?A ?p ?ex2 of Inl ex \<Rightarrow> Inl ex
         | Inr ex4 \<Rightarrow>
             (case ?B ?p ex4 of Inl ex \<Rightarrow> Inl ex
              | Inr ex5 \<Rightarrow> Inr (ex5, props\<lparr>p_owners := Some (Owners os)\<rparr>)))"
      using Inr by (simp add: collect_exceptions_def Let_def)
    have big: "(case ?A ?p ?ex2 of Inl ex \<Rightarrow> Inl ex
         | Inr ex4 \<Rightarrow>
             (case ?B ?p ex4 of Inl ex \<Rightarrow> Inl ex
              | Inr ex5 \<Rightarrow> Inr (ex5, props\<lparr>p_owners := Some (Owners os)\<rparr>))) =
        Inr (excs, props1)"
      by (rule trans [OF u [symmetric] assms])
    from two_steps [OF big] obtain ex4 where
      c: "?A ?p ?ex2 = Inr ex4" and mm: "?B ?p ex4 = Inr excs"
      by blast
    have "DatabaseChangeValidationError \<in> set excs \<longleftrightarrow>
        DatabaseChangeValidationError \<in> set ?ex2"
      using columns_step [OF c] metrics_step [OF mm] by simp
    with e2 Inr show ?thesis by auto
  qed
qed

lemma validate_columns_total:
  assumes "list_all (has_hashable ''column_name'') cols"
  shows "\<exists>r. validate_columns e s model_id oc cols x = Inr r"
proof -
  from assms have a: "\<forall>c\<in>set cols. has_hashable ''column_name'' c"
    by (simp add: list_all_iff)
  then have p: "\<forall>c\<in>set cols. c ''column_name'' \<noteq> None"
    by (auto dest: has_hashable_present)
  from get_duplicates_present [OF a] obtain ds where
    ds: "get_duplicates cols ''column_name'' = Inr ds" by blast
  from key_values_with_id [of cols] obtain ids where
    ids: "key_values (with_id cols) ''id'' = Inr ids" by blast
  from key_values_without_id [OF p] obtain ns where
    ns: "key_values (without_id cols) ''column_name'' = Inr ns" by blast
  show ?thesis by (simp add: validate_columns_def ds ids ns Let_def)
qed

lemma validate_metrics_total:
  assumes "list_all (has_hashable ''metric_name'') mets"
  shows "\<exists>r. validate_metrics e s model_id mets x = Inr r"
proof -
  from assms have a: "\<forall>c\<in>set mets. has_hashable ''metric_name'' c"
    by (simp add: list_all_iff)
  then have p: "\<forall>c\<in>set mets. c ''metric_name'' \<noteq> None"
    by (auto dest: has_hashable_present)
  from get_duplicates_present [OF a] obtain ds where
    ds: "get_duplicates mets ''metric_name'' = Inr ds" by blast
  from key_values_with_id [of mets] obtain ids where
    ids: "key_values (with_id mets) ''id'' = Inr ids" by blast
  from key_values_without_id [OF p] obtain ns where
    ns: "key_values (without_id mets) ''metric_name'' = Inr ns" by blast
  show ?thesis by (simp add: validate_metrics_def ds ids ns Let_def)
qed

lemma collect_exceptions_total:
  assumes wc: "well_formed ''column_name'' (p_columns props)"
    and wm: "well_formed ''metric_name'' (p_metrics props)"
  shows "\<exists>excs props1. collect_exceptions e g s model_id m props = Inr (excs, props1)"
proof -
  let ?ex1 = "if \<not> validate_update_uniqueness e s (database_id m) model_id (p_table_name props)
              then [DatamanageExistsValidationError (p_table_name props)] else []"
  let ?ex2 = "database_check m (p_database props) ?ex1"
  let ?A = "\<lambda>p x. case p_columns p of None \<Rightarrow> Inr x
            | Some cols \<Rightarrow>
                if cols \<noteq> []
                then validate_columns e s model_id (p_override_columns p) cols x
                else Inr x"
  let ?B = "\<lambda>p x. case p_metrics p of None \<Rightarrow> Inr x
            | Some mets \<Rightarrow> if mets \<noteq> [] then validate_metrics e s model_id mets x else Inr x"
  have A: "\<exists>y. (case p_columns props of None \<Rightarrow> Inr x
            | Some cols \<Rightarrow>
                if cols \<noteq> [] then validate_columns e s model_id oc cols x else Inr x) = Inr y"
    for x oc
  proof (cases "p_columns props")
    case None
    then show ?thesis by simp
  next
    case (Some cols)
    with wc have "list_all (has_hashable ''column_name'') cols" by (simp add: well_formed_def)
    from validate_columns_total [OF this, of e s model_id oc x] Some show ?thesis by simp
  qed
  have B: "\<exists>y. (case p_metrics props of None \<Rightarrow> Inr x
            | Some mets \<Rightarrow> if mets \<noteq> [] then validate_metrics e s model_id mets x else Inr x) = Inr y"
    for x
  proof (cases "p_metrics props")
    case None
    then show ?thesis by simp
  next
    case (Some mets)
    with wm have "list_all (has_hashable ''metric_name'') mets" by (simp add: well_formed_def)
    from validate_metrics_total [OF this, of e s model_id x] Some show ?thesis by simp
  qed
  show ?thesis
  proof (cases "populate_owners e s g (owner_ids_of props)")
    case (Inl ex)
    have u: "collect_exceptions e g s model_id m props =
        (case ?A props (?ex2 @ [ex]) of Inl ex \<Rightarrow> Inl ex
         | Inr ex4 \<Rightarrow> (case ?B props ex4 of Inl ex \<Rightarrow> Inl ex | Inr ex5 \<Rightarrow> Inr (ex5, props)))"
      using Inl by (simp add: collect_exceptions_def Let_def)
    from A [of "?ex2 @ [ex]" "p_override_columns props"] obtain y where
      y: "?A props (?ex2 @ [ex]) = Inr y" by blast
    from B [of y] obtain z where z: "?B props y = Inr z" by blast
    have "collect_exceptions e g s model_id m props = Inr (z, props)"
      unfolding u y using z by simp
    then show ?thesis by blast
  next
    case (Inr os)
    let ?p = "props\<lparr>p_owners := Some (Owners os)\<rparr>"
    have u: "collect_exceptions e g s model_id m props =
        (case ?A ?p ?ex2 of Inl ex \<Rightarrow> Inl ex
         | Inr ex4 \<Rightarrow>
             (case ?B ?p ex4 of Inl ex \<Rightarrow> Inl ex
              | Inr ex5 \<Rightarrow> Inr (ex5, props\<lparr>p_owners := Some (Owners os)\<rparr>)))"
      using Inr by (simp add: collect_exceptions_def Let_def)
    from A [of ?ex2 "p_override_columns ?p"] obtain y where
      y: "?A ?p ?ex2 = Inr y" by auto
    from B [of y] obtain z where z: "?B ?p y = Inr z" by auto
    have "collect_exceptions e g s model_id m props = Inr (z, ?p)"
      unfolding u y using z by simp
    then show ?thesis by blast
  qed
qed

text \<open>
  Claim C9. A payload whose \<open>database\<close> value is truthy has the database-change error
  appended, whatever the value, the dataset's own database id included: the value is
  compared with the model object, which no payload value equals. Once the dataset is
  found and the ownership check has passed, the validation of such a payload raises
  the invalid-dataset error with the database-change error among its errors, when the
  column and metric lists are absent or well formed (a record without its name, or
  with a name that is not hashable, ends the validation with \<open>KeyError\<close> or
  \<open>TypeError\<close> after the error has been appended). A payload without the field, or
  with a falsy value, has nothing appended by the check and never has this error
  reported.
\<close>

theorem database_change_always_reported:
  "(p_database props = Some v \<and> truthy v \<and> payload_value v \<longrightarrow>
      database_check m (p_database props) exceptions =
        exceptions @ [DatabaseChangeValidationError]) \<and>
   (find_by_id e s model_id = Some m \<and> raise_for_ownership e g m = None \<and>
    p_database props = Some v \<and> truthy v \<and> payload_value v \<and>
    well_formed ''column_name'' (p_columns props) \<and>
    well_formed ''metric_name'' (p_metrics props) \<longrightarrow>
      (\<exists>excs. update_validate e g s model_id props = Inl (DatamanageInvalidError excs) \<and>
         DatabaseChangeValidationError \<in> set excs)) \<and>
   (find_by_id e s model_id = Some m \<and> raise_for_ownership e g m = None \<and>
    p_database props = Some v \<and> truthy v \<and> payload_value v \<longrightarrow>
      (\<exists>excs. update_validate e g s model_id props = Inl (DatamanageInvalidError excs) \<and>
         DatabaseChangeValidationError \<in> set excs) \<or>
      (\<exists>k. update_validate e g s model_id props = Inl (KeyError k)) \<or>
      (\<exists>msg. update_validate e g s model_id props = Inl (TypeError msg))) \<and>
   (p_database props = None \<or> (\<exists>w. p_database props = Some w \<and> \<not> truthy w) \<longrightarrow>
      database_check m (p_database props) exceptions = exceptions) \<and>
   (find_by_id e s model_id = Some m \<and> raise_for_ownership e g m = None \<and>
    (p_database props = None \<or> (\<exists>w. p_database props = Some w \<and> \<not> truthy w)) \<and>
    populate_owners e s g (owner_ids_of props) \<noteq> Inl DatabaseChangeValidationError \<longrightarrow>
      (\<forall>excs. update_validate e g s model_id props = Inl (DatamanageInvalidError excs) \<longrightarrow>
         DatabaseChangeValidationError \<notin> set excs))"
proof (intro conjI impI allI)
  assume "p_database props = Some v \<and> truthy v \<and> payload_value v"
  then show "database_check m (p_database props) exceptions =
      exceptions @ [DatabaseChangeValidationError]"
    by (cases v) (auto simp: database_check_def)
next
  assume h: "find_by_id e s model_id = Some m \<and> raise_for_ownership e g m = None \<and>
    p_database props = Some v \<and> truthy v \<and> payload_value v \<and>
    well_formed ''column_name'' (p_columns props) \<and>
    well_formed ''metric_name'' (p_metrics props)"
  then have ne: "v \<noteq> PModel m" by (cases v) auto
  from h collect_exceptions_total [of props e g s model_id m] obtain excs props1 where
    c: "collect_exceptions e g s model_id m props = Inr (excs, props1)" by blast
  from collect_exceptions_database [OF c] h ne
  have "DatabaseChangeValidationError \<in> set excs" by simp
  with c h show "\<exists>excs. update_validate e g s model_id props = Inl (DatamanageInvalidError excs) \<and>
      DatabaseChangeValidationError \<in> set excs"
    by (auto simp: update_validate_def)
next
  assume h: "find_by_id e s model_id = Some m \<and> raise_for_ownership e g m = None \<and>
    p_database props = Some v \<and> truthy v \<and> payload_value v"
  then have ne: "v \<noteq> PModel m" by (cases v) auto
  show "(\<exists>excs. update_validate e g s model_id props = Inl (DatamanageInvalidError excs) \<and>
         DatabaseChangeValidationError \<in> set excs) \<or>
      (\<exists>k. update_validate e g s model_id props = Inl (KeyError k)) \<or>
      (\<exists>msg. update_validate e g s model_id props = Inl (TypeError msg))"
  proof (cases "collect_exceptions e g s model_id m props")
    case (Inl ex)
    with collect_exceptions_error [OF Inl] h show ?thesis
      by (auto simp: update_validate_def)
  next
    case (Inr p)
    obtain excs props1 where p: "p = (excs, props1)" by (cases p)
    from collect_exceptions_database [OF Inr [unfolded p]] h ne
    have "DatabaseChangeValidationError \<in> set excs" by simp
    with Inr p h show ?thesis
      by (auto simp: update_validate_def)
  qed
next
  assume "p_database props = None \<or> (\<exists>w. p_database props = Some w \<and> \<not> truthy w)"
  then show "database_check m (p_database props) exceptions = exceptions"
    by (auto simp: database_check_def)
next
  fix excs
  assume h: "find_by_id e s model_id = Some m \<and> raise_for_ownership e g m = None \<and>
    (p_database props = None \<or> (\<exists>w. p_database props = Some w \<and> \<not> truthy w)) \<and>
    populate_owners e s g (owner_ids_of props) \<noteq> Inl DatabaseChangeValidationError"
    and r: "update_validate e g s model_id props = Inl (DatamanageInvalidError excs)"
  show "DatabaseChangeValidationError \<notin> set excs"
  proof (cases "collect_exceptions e g s model_id m props")
    case (Inl ex)
    with collect_exceptions_error [OF Inl] h r show ?thesis
      by (auto simp: update_validate_def)
  next
    case (Inr p)
    obtain excs' props1 where p: "p = (excs', props1)" by (cases p)
    from Inr p h r have "excs' = excs"
      by (auto simp: update_validate_def split: if_splits)
    with collect_exceptions_database [OF Inr [unfolded p]] h show ?thesis by auto
  qed
qed

theorem database_change_always_reported_witness:
  "database_id sales = 7 \<and>
   database_check sales (Some (PInt 7)) [] = [DatabaseChangeValidationError] \<and>
   (\<exists>excs. update_validate (memory_env False) (UserObj alice) [sales] 1
        (no_properties\<lparr>p_database := Some (PInt 7),
           p_columns := Some [[''column_name'' \<mapsto> PStr ''day''], [''column_name'' \<mapsto> PStr ''amount'']]\<rparr>) =
        Inl (DatamanageInvalidError excs) \<and>
      DatabaseChangeValidationError \<in> set excs) \<and>
   update_validate (memory_env False) (UserObj alice) [sales] 1
     (no_properties\<lparr>p_database := Some (PInt 7)\<rparr>) =
     Inl (DatamanageInvalidError [DatabaseChangeValidationError]) \<and>
   database_check sales (Some (PInt 0)) [] = [] \<and>
   update_validate (memory_env False) (UserObj alice) [sales] 1 no_properties =
     Inr (sales, no_properties\<lparr>p_owners := Some (Owners [])\<rparr>)"
proof -
  let ?cols = "[[''column_name'' \<mapsto> PStr ''day''], [''column_name'' \<mapsto> PStr ''amount'']]"
  let ?p = "no_properties\<lparr>p_database := Some (PInt 7), p_columns := Some ?cols\<rparr>"
  have d: "database_id sales = 7" by (simp add: sales_def)
  have h0: "p_database ?p = Some (PInt 7) \<and> truthy (PInt 7) \<and> payload_value (PInt 7)"
    by simp
  have c0: "database_check sales (p_database ?p) [] = [] @ [DatabaseChangeValidationError]"
    by (rule database_change_always_reported [THEN conjunct1, THEN mp, OF h0])
  have h1: "find_by_id (memory_env False) [sales] 1 = Some sales \<and>
      raise_for_ownership (memory_env False) (UserObj alice) sales = None \<and>
      p_database ?p = Some (PInt 7) \<and> truthy (PInt 7) \<and> payload_value (PInt 7) \<and>
      well_formed ''column_name'' (p_columns ?p) \<and>
      well_formed ''metric_name'' (p_metrics ?p)"
    by (simp add: memory_env_def sales_def well_formed_def has_hashable_def no_properties_def)
  have c1: "\<exists>excs. update_validate (memory_env False) (UserObj alice) [sales] 1 ?p =
        Inl (DatamanageInvalidError excs) \<and>
      DatabaseChangeValidationError \<in> set excs"
    by (rule database_change_always_reported [THEN conjunct2, THEN conjunct1, THEN mp, OF h1])
  have h3: "p_database (no_properties\<lparr>p_database := Some (PInt 0)\<rparr>) = None \<or>
      (\<exists>w. p_database (no_properties\<lparr>p_database := Some (PInt 0)\<rparr>) = Some w \<and> \<not> truthy w)"
    by simp
  have c3: "database_check sales (p_database (no_properties\<lparr>p_database := Some (PInt 0)\<rparr>)) [] = []"
    by (rule database_change_always_reported
          [THEN conjunct2, THEN conjunct2, THEN conjunct2, THEN conjunct1, THEN mp, OF h3])
  have r1: "update_validate (memory_env False) (UserObj alice) [sales] 1
     (no_properties\<lparr>p_database := Some (PInt 7)\<rparr>) =
     Inl (DatamanageInvalidError [DatabaseChangeValidationError])"
    by (simp add: update_validate_def collect_exceptions_def database_check_def memory_env_def
        no_properties_def owner_ids_of_def sales_def Let_def)
  have r2: "update_validate (memory_env False) (UserObj alice) [sales] 1 no_properties =
     Inr (sales, no_properties\<lparr>p_owners := Some (Owners [])\<rparr>)"
    by (simp add: update_validate_def collect_exceptions_def database_check_def memory_env_def
        no_properties_def owner_ids_of_def sales_def Let_def)
  from c0 have c0': "database_check sales (Some (PInt 7)) [] = [DatabaseChangeValidationError]"
    by simp
  from c3 have c3': "database_check sales (Some (PInt 0)) [] = []"
    by simp
  from d c0' c1 r1 c3' r2 show ?thesis by (intro conjI)
qed

end
